theory Spec2Isabelle
  imports Complex_Main "HOL-Library.Word"
begin

unbundle bit_operations_syntax

section \<open>Voxel block storage (src/voxel\_buffer.cpp)\<close>

subsection \<open>Outcomes\<close>

text \<open>
  The C++ methods report failure in three ways, each a value of \<open>error\<close>:
  \<^item> \<open>ERR_FAIL\<close>: one of Godot's \<^verbatim>\<open>ERR_FAIL_INDEX\<close>, \<^verbatim>\<open>ERR_FAIL_COND\<close> macros fired; an
    error message is logged and the method returns at once. In every method modelled here
    the macro stands before the first mutation, so the object is unchanged. For the
    value-returning variants (\<^verbatim>\<open>ERR_FAIL_INDEX_V\<close>) the caller receives the fallback
    value given to the macro (0 for \<^verbatim>\<open>get_voxel\<close> and \<^verbatim>\<open>get_voxel_f\<close>, true for \<^verbatim>\<open>is_uniform\<close>).
  \<^item> \<open>CRASH\<close>: \<^verbatim>\<open>CRASH_COND\<close> or \<^verbatim>\<open>CRASH_NOW\<close> aborted the process.
  \<^item> \<open>OUT_OF_BOUNDS\<close>: the method read or wrote outside a channel buffer, or converted a
    floating-point value that the target integer type cannot hold; C++ leaves the
    behaviour undefined.
  \<open>Inr\<close> is a normal return. A method that returns \<open>Inr\<close> without having gone through
  \<open>ignore_failure\<close> has logged nothing.
\<close>

datatype error = ERR_FAIL | CRASH | OUT_OF_BOUNDS

text \<open>Sequencing: the first failure ends the method.\<close>

definition bind_r :: "error + 'a \<Rightarrow> ('a \<Rightarrow> error + 'b) \<Rightarrow> error + 'b" where
  "bind_r r f = (case r of Inl e \<Rightarrow> Inl e | Inr x \<Rightarrow> f x)"

text \<open>
  A \<^verbatim>\<open>void\<close> callee that fails with \<open>ERR_FAIL\<close> has logged and returned; its caller goes on
  with the unchanged object \<open>b\<close>.
\<close>

definition ignore_failure :: "'a \<Rightarrow> error + 'a \<Rightarrow> error + 'a" where
  "ignore_failure b r = (case r of Inl ERR_FAIL \<Rightarrow> Inr b | Inl e \<Rightarrow> Inl e | Inr b' \<Rightarrow> Inr b')"

text \<open>A \<^verbatim>\<open>for\<close> loop over the values \<open>xs\<close> whose body can fail.\<close>

fun for_each :: "'i list \<Rightarrow> ('i \<Rightarrow> 's \<Rightarrow> error + 's) \<Rightarrow> 's \<Rightarrow> error + 's" where
  "for_each [] body s = Inr s"
| "for_each (i # is) body s =
     (case body i s of Inl e \<Rightarrow> Inl e | Inr s' \<Rightarrow> for_each is body s')"

subsection \<open>Data model\<close>

datatype Depth =
  DEPTH_1_BIT | DEPTH_8_BIT | DEPTH_16_BIT | DEPTH_24_BIT | DEPTH_32_BIT | DEPTH_64_BIT

text \<open>
  \<^verbatim>\<open>Vector3i\<close>: three C++ \<^verbatim>\<open>int\<close>s. Coordinates are modelled as unbounded integers (signed
  overflow is undefined in C++ and is not modelled); every conversion to \<^verbatim>\<open>unsigned int\<close>
  or \<^verbatim>\<open>uint64_t\<close> is written out with \<open>word_of_int\<close>, which reduces modulo the width.
\<close>

type_synonym Vector3i = "int \<times> int \<times> int"

text \<open>
  \<^verbatim>\<open>struct Channel\<close>: \<open>data\<close> is the owned byte buffer (\<open>None\<close> is the null pointer, the
  uniform state), \<open>defval\<close> the \<^verbatim>\<open>uint64_t\<close> fallback value.
\<close>

record Channel =
  data :: "8 word list option"
  defval :: "64 word"
  depth :: Depth
  size_in_bytes :: "32 word"

record VoxelBuffer =
  channels :: "Channel list"
  vb_size :: Vector3i

text \<open>
  Modelled from the spec: the header voxel\_buffer.h is not among the sources. From the
  spec's data model: \<^verbatim>\<open>MAX_CHANNELS\<close> is 8, channel 0 is TYPE and channel 1 is SDF, a
  channel starts uniform with depth D8 and \<open>defval\<close> 0, a position is valid when it lies
  inside the block, the linear index is \<^verbatim>\<open>z*sx*sy + x*sy + y\<close>, the volume is
  \<^verbatim>\<open>sx*sy*sz\<close>.
\<close>

definition MAX_CHANNELS :: nat where
  "MAX_CHANNELS = 8"

definition CHANNEL_TYPE :: nat where
  "CHANNEL_TYPE = 0"

definition CHANNEL_SDF :: nat where
  "CHANNEL_SDF = 1"


definition DEFAULT_CHANNEL_DEPTH :: Depth where
  "DEFAULT_CHANNEL_DEPTH = DEPTH_8_BIT"

definition default_channel :: Channel where
  "default_channel =
     \<lparr>data = None, defval = 0, depth = DEFAULT_CHANNEL_DEPTH, size_in_bytes = 0\<rparr>"

definition validate_pos :: "VoxelBuffer \<Rightarrow> int \<Rightarrow> int \<Rightarrow> int \<Rightarrow> bool" where
  "validate_pos b x y z =
     (case vb_size b of (sx, sy, sz) \<Rightarrow>
        0 \<le> x \<and> x < sx \<and> 0 \<le> y \<and> y < sy \<and> 0 \<le> z \<and> z < sz)"

definition index :: "VoxelBuffer \<Rightarrow> int \<Rightarrow> int \<Rightarrow> int \<Rightarrow> 32 word" where
  "index b x y z = (case vb_size b of (sx, sy, sz) \<Rightarrow> word_of_int (y + sy * (x + sx * z)))"

definition volume_of :: "Vector3i \<Rightarrow> 32 word" where
  "volume_of s = (case s of (sx, sy, sz) \<Rightarrow> word_of_int (sx * sy * sz))"

definition get_volume :: "VoxelBuffer \<Rightarrow> 32 word" where
  "get_volume b = volume_of (vb_size b)"

text \<open>The constructor: every channel default, the SDF channel with \<open>defval\<close> 255.\<close>

definition VoxelBuffer_new :: VoxelBuffer where
  "VoxelBuffer_new =
     \<lparr>channels = (replicate MAX_CHANNELS default_channel)
                   [CHANNEL_SDF := default_channel\<lparr>defval := 255\<rparr>],
      vb_size = (0, 0, 0)\<rparr>"

text \<open>\<^verbatim>\<open>Channel &channel = _channels[i]; channel.f = ...\<close>: an update of channel \<open>i\<close> in place.\<close>

definition channel_at :: "VoxelBuffer \<Rightarrow> nat \<Rightarrow> Channel" where
  "channel_at b i = channels b ! i"

definition set_channel :: "VoxelBuffer \<Rightarrow> nat \<Rightarrow> Channel \<Rightarrow> VoxelBuffer" where
  "set_channel b i c = b\<lparr>channels := (channels b)[i := c]\<rparr>"

subsection \<open>Memory\<close>

text \<open>
  \<^verbatim>\<open>allocate_channel_data\<close> returns uninitialised memory from the pool. The bytes it holds
  are a parameter of the model: \<open>pool n k\<close> is byte \<open>k\<close> of a fresh buffer of \<open>n\<close> bytes.
\<close>

type_synonym pool = "nat \<Rightarrow> nat \<Rightarrow> 8 word"

definition allocate_channel_data :: "pool \<Rightarrow> 32 word \<Rightarrow> 8 word list" where
  "allocate_channel_data pool n = map (pool (unat n)) [0..<unat n]"

text \<open>Byte accesses \<^verbatim>\<open>data[i]\<close>, checked against the buffer.\<close>

definition load_byte :: "8 word list \<Rightarrow> nat \<Rightarrow> error + 8 word" where
  "load_byte d i = (if i < length d then Inr (d ! i) else Inl OUT_OF_BOUNDS)"

definition store_byte :: "8 word list \<Rightarrow> nat \<Rightarrow> 8 word \<Rightarrow> error + 8 word list" where
  "store_byte d i v = (if i < length d then Inr (d[i := v]) else Inl OUT_OF_BOUNDS)"

text \<open>
  Typed accesses \<^verbatim>\<open>((uintN_t *)data)[i]\<close> for an element of \<open>w\<close> bytes: the bytes
  \<open>w*i ..< w*i + w\<close>, least significant first (the spec fixes little-endian order).
\<close>

fun le_bytes :: "nat \<Rightarrow> 64 word \<Rightarrow> 8 word list" where
  "le_bytes 0 v = []"
| "le_bytes (Suc n) v = ucast v # le_bytes n (drop_bit 8 v)"

fun le_word :: "8 word list \<Rightarrow> 64 word" where
  "le_word [] = 0"
| "le_word (x # xs) = ucast x OR push_bit 8 (le_word xs)"

definition load_elem :: "nat \<Rightarrow> 8 word list \<Rightarrow> nat \<Rightarrow> error + 64 word" where
  "load_elem w d i =
     (if w * i + w \<le> length d then Inr (le_word (take w (drop (w * i) d)))
      else Inl OUT_OF_BOUNDS)"

definition store_elem :: "nat \<Rightarrow> 8 word list \<Rightarrow> nat \<Rightarrow> 64 word \<Rightarrow> error + 8 word list" where
  "store_elem w d i v =
     (if w * i + w \<le> length d then Inr (take (w * i) d @ le_bytes w v @ drop (w * i + w) d)
      else Inl OUT_OF_BOUNDS)"

text \<open>\<^verbatim>\<open>memset(data, c, n)\<close> and \<^verbatim>\<open>memcpy(dst, src, n)\<close>.\<close>

definition memset :: "8 word list \<Rightarrow> 8 word \<Rightarrow> nat \<Rightarrow> error + 8 word list" where
  "memset d c n = (if n \<le> length d then Inr (replicate n c @ drop n d) else Inl OUT_OF_BOUNDS)"

definition memcpy :: "8 word list \<Rightarrow> 8 word list \<Rightarrow> nat \<Rightarrow> error + 8 word list" where
  "memcpy dst src n =
     (if n \<le> length dst \<and> n \<le> length src then Inr (take n src @ drop n dst)
      else Inl OUT_OF_BOUNDS)"

subsection \<open>Encoding\<close>

fun get_depth_bit_count :: "Depth \<Rightarrow> 32 word" where
  "get_depth_bit_count DEPTH_1_BIT = 1"
| "get_depth_bit_count DEPTH_8_BIT = 8"
| "get_depth_bit_count DEPTH_16_BIT = 16"
| "get_depth_bit_count DEPTH_24_BIT = 24"
| "get_depth_bit_count DEPTH_32_BIT = 32"
| "get_depth_bit_count DEPTH_64_BIT = 64"

fun get_max_value_for_depth :: "Depth \<Rightarrow> 64 word" where
  "get_max_value_for_depth DEPTH_1_BIT = 1"
| "get_max_value_for_depth DEPTH_8_BIT = 0xff"
| "get_max_value_for_depth DEPTH_16_BIT = 0xffff"
| "get_max_value_for_depth DEPTH_24_BIT = 0xffffff"
| "get_max_value_for_depth DEPTH_32_BIT = 0xffffffff"
| "get_max_value_for_depth DEPTH_64_BIT = 0xffffffffffffffff"

definition clamp_value_for_depth :: "64 word \<Rightarrow> Depth \<Rightarrow> 64 word" where
  "clamp_value_for_depth v d =
     (let max_val = get_max_value_for_depth d in if v \<ge> max_val then max_val else v)"

subsection \<open>Channel storage\<close>

definition get_size_in_bytes_for_volume :: "Vector3i \<Rightarrow> Depth \<Rightarrow> error + 32 word" where
  "get_size_in_bytes_for_volume s d =
     (let volume = volume_of s;
          bits = volume * get_depth_bit_count d;
          size_in_bytes = drop_bit 3 bits
      in if d = DEPTH_1_BIT \<and> size_in_bytes * 8 < volume
         then (if (size_in_bytes + 1) * 8 < volume then Inl CRASH else Inr (size_in_bytes + 1))
         else Inr size_in_bytes)"

definition create_channel_noinit ::
  "pool \<Rightarrow> nat \<Rightarrow> Vector3i \<Rightarrow> VoxelBuffer \<Rightarrow> error + VoxelBuffer" where
  "create_channel_noinit pool i s b =
     bind_r (get_size_in_bytes_for_volume s (depth (channel_at b i))) (\<lambda>n.
       Inr (set_channel b i
         ((channel_at b i)\<lparr>data := Some (allocate_channel_data pool n), size_in_bytes := n\<rparr>)))"

definition delete_channel :: "nat \<Rightarrow> VoxelBuffer \<Rightarrow> error + VoxelBuffer" where
  "delete_channel i b =
     (if data (channel_at b i) = None then Inl ERR_FAIL
      else Inr (set_channel b i ((channel_at b i)\<lparr>data := None, size_in_bytes := 0\<rparr>)))"

text \<open>
  The body of \<^verbatim>\<open>fill\<close>'s switch: \<open>d\<close> is the buffer, \<open>v\<close> the clamped value, \<open>n\<close> the
  channel's \<^verbatim>\<open>size_in_bytes\<close> and \<open>volume\<close> the block's volume.
\<close>

definition fill_data ::
  "Depth \<Rightarrow> 8 word list \<Rightarrow> 64 word \<Rightarrow> 32 word \<Rightarrow> 32 word \<Rightarrow> error + 8 word list" where
  "fill_data dp d v n volume =
     (case dp of
        DEPTH_1_BIT \<Rightarrow> memset d (if v \<noteq> 0 then 0xff else 0) (unat n)
      | DEPTH_8_BIT \<Rightarrow> memset d (ucast v) (unat n)
      | DEPTH_16_BIT \<Rightarrow> for_each [0..<unat volume] (\<lambda>i d. store_elem 2 d i v) d
      | DEPTH_24_BIT \<Rightarrow>
          (let b0 = ucast (v AND 0xff) :: 8 word;
               b1 = ucast (drop_bit 8 v AND 0xff) :: 8 word;
               b2 = ucast (drop_bit 16 v AND 0xff) :: 8 word
           in for_each [0..<unat volume] (\<lambda>i d.
                (let p = unat ((word_of_nat i :: 32 word) * 3) in
                 bind_r (store_byte d p b0) (\<lambda>d.
                 bind_r (store_byte d (p + 1) b1) (\<lambda>d.
                 store_byte d (p + 2) b2)))) d)
      | DEPTH_32_BIT \<Rightarrow> for_each [0..<unat volume] (\<lambda>i d. store_elem 4 d i v) d
      | DEPTH_64_BIT \<Rightarrow> for_each [0..<unat volume] (\<lambda>i d. store_elem 8 d i v) d)"

text \<open>
  \<^verbatim>\<open>fill\<close>: on a uniform channel only \<open>defval\<close> changes; on a materialised one the buffer
  is allocated again for the block's current size and overwritten.
\<close>

definition fill :: "pool \<Rightarrow> 64 word \<Rightarrow> nat \<Rightarrow> VoxelBuffer \<Rightarrow> error + VoxelBuffer" where
  "fill pool v0 channel_index b =
     (if \<not> channel_index < MAX_CHANNELS then Inl ERR_FAIL
      else
        let channel = channel_at b channel_index;
            v = clamp_value_for_depth v0 (depth channel)
        in if data channel = None
           then (if defval channel = v then Inr b
                 else Inr (set_channel b channel_index (channel\<lparr>defval := v\<rparr>)))
           else
             bind_r (create_channel_noinit pool channel_index (vb_size b) b) (\<lambda>b1.
               let ch = channel_at b1 channel_index in
               case data ch of
                 None \<Rightarrow> Inl OUT_OF_BOUNDS
               | Some d \<Rightarrow>
                   bind_r (fill_data (depth ch) d v (size_in_bytes ch) (get_volume b1)) (\<lambda>d'.
                     Inr (set_channel b1 channel_index (ch\<lparr>data := Some d'\<rparr>)))))"

text \<open>
  \<^verbatim>\<open>create_channel(i, size, defval)\<close>: allocate for \<open>size\<close>, then \<^verbatim>\<open>fill(defval, i)\<close>, which
  works on the block's own size.
\<close>

definition create_channel ::
  "pool \<Rightarrow> nat \<Rightarrow> Vector3i \<Rightarrow> 64 word \<Rightarrow> VoxelBuffer \<Rightarrow> error + VoxelBuffer" where
  "create_channel pool i s v b =
     bind_r (create_channel_noinit pool i s b) (\<lambda>b1. ignore_failure b1 (fill pool v i b1))"

definition create :: "pool \<Rightarrow> int \<Rightarrow> int \<Rightarrow> int \<Rightarrow> VoxelBuffer \<Rightarrow> error + VoxelBuffer" where
  "create pool sx sy sz b =
     (if sx \<le> 0 \<or> sy \<le> 0 \<or> sz \<le> 0 then Inr b
      else
        let new_size = (sx, sy, sz)
        in if new_size \<noteq> vb_size b
           then bind_r
                  (for_each [0..<MAX_CHANNELS] (\<lambda>i b.
                     let channel = channel_at b i
                     in if data channel \<noteq> None
                        then bind_r (ignore_failure b (delete_channel i b)) (\<lambda>b1.
                               create_channel pool i new_size (defval channel) b1)
                        else Inr b) b)
                  (\<lambda>b'. Inr (b'\<lparr>vb_size := new_size\<rparr>))
           else Inr b)"

definition clear_channel :: "nat \<Rightarrow> 64 word \<Rightarrow> VoxelBuffer \<Rightarrow> error + VoxelBuffer" where
  "clear_channel channel_index clear_value b =
     (if \<not> channel_index < MAX_CHANNELS then Inl ERR_FAIL
      else
        bind_r (if data (channel_at b channel_index) \<noteq> None
                then ignore_failure b (delete_channel channel_index b) else Inr b) (\<lambda>b1.
          let channel = channel_at b1 channel_index
          in Inr (set_channel b1 channel_index
                   (channel\<lparr>defval := clamp_value_for_depth clear_value (depth channel)\<rparr>))))"



subsection \<open>Reading and writing one voxel\<close>

definition get_voxel :: "VoxelBuffer \<Rightarrow> int \<Rightarrow> int \<Rightarrow> int \<Rightarrow> nat \<Rightarrow> error + 64 word" where
  "get_voxel b x y z channel_index =
     (if \<not> channel_index < MAX_CHANNELS then Inl ERR_FAIL
      else
        let channel = channel_at b channel_index
        in case data channel of
             None \<Rightarrow> Inr (defval channel)
           | Some d \<Rightarrow>
               if validate_pos b x y z
               then
                 (let i = index b x y z
                  in case depth channel of
                       DEPTH_1_BIT \<Rightarrow>
                         bind_r (load_byte d (unat (drop_bit 3 i))) (\<lambda>byte.
                           Inr (ucast (drop_bit (unat (i AND 7)) byte)))
                     | DEPTH_8_BIT \<Rightarrow> bind_r (load_byte d (unat i)) (\<lambda>byte. Inr (ucast byte))
                     | DEPTH_16_BIT \<Rightarrow> load_elem 2 d (unat i)
                     | DEPTH_24_BIT \<Rightarrow>
                         bind_r (load_byte d (unat (i * 3))) (\<lambda>b0.
                         bind_r (load_byte d (unat (i * 3 + 1))) (\<lambda>b1.
                         bind_r (load_byte d (unat (i * 3 + 2))) (\<lambda>b2.
                           Inr (ucast b0 OR push_bit 8 (ucast b1) OR push_bit 16 (ucast b2)))))
                     | DEPTH_32_BIT \<Rightarrow> load_elem 4 d (unat i)
                     | DEPTH_64_BIT \<Rightarrow> load_elem 8 d (unat i))
               else Inr (defval channel))"

text \<open>The switch of \<^verbatim>\<open>set_voxel\<close>: the write of the clamped \<open>v\<close> at linear index \<open>i\<close>.\<close>

definition write_voxel :: "Depth \<Rightarrow> 8 word list \<Rightarrow> 32 word \<Rightarrow> 64 word \<Rightarrow> error + 8 word list" where
  "write_voxel dp d i v =
     (case dp of
        DEPTH_1_BIT \<Rightarrow>
          bind_r (load_byte d (unat (drop_bit 3 i))) (\<lambda>prev.
            let m = push_bit (unat (i AND 7)) 1 :: 8 word
            in if v \<noteq> 0 then store_byte d (unat (drop_bit 3 i)) (prev OR m)
               else store_byte d (unat (drop_bit 3 i)) (prev AND NOT m))
      | DEPTH_8_BIT \<Rightarrow> store_byte d (unat i) (ucast v)
      | DEPTH_16_BIT \<Rightarrow> store_elem 2 d (unat i) v
      | DEPTH_24_BIT \<Rightarrow>
          bind_r (store_byte d (unat (i * 3)) (ucast (v AND 0xff))) (\<lambda>d.
          bind_r (store_byte d (unat (i * 3 + 1)) (ucast (drop_bit 8 v AND 0xff))) (\<lambda>d.
          store_byte d (unat (i * 3 + 2)) (ucast (drop_bit 16 v AND 0xff))))
      | DEPTH_32_BIT \<Rightarrow> store_elem 4 d (unat i) v
      | DEPTH_64_BIT \<Rightarrow> store_elem 8 d (unat i) v)"

definition set_voxel ::
  "pool \<Rightarrow> 64 word \<Rightarrow> int \<Rightarrow> int \<Rightarrow> int \<Rightarrow> nat \<Rightarrow> VoxelBuffer \<Rightarrow> error + VoxelBuffer" where
  "set_voxel pool value x y z channel_index b =
     (if \<not> channel_index < MAX_CHANNELS then Inl ERR_FAIL
      else if \<not> validate_pos b x y z then Inl ERR_FAIL
      else
        let v = clamp_value_for_depth value (depth (channel_at b channel_index))
        in bind_r
             (if data (channel_at b channel_index) = None
              then (if defval (channel_at b channel_index) \<noteq> v
                    then bind_r (create_channel pool channel_index (vb_size b)
                                   (defval (channel_at b channel_index)) b)
                           (\<lambda>b1. Inr (b1, True))
                    else Inr (b, False))
              else Inr (b, True))
             (\<lambda>(b1, do_set).
                if do_set
                then
                  (let channel = channel_at b1 channel_index
                   in case data channel of
                        None \<Rightarrow> Inl OUT_OF_BOUNDS
                      | Some d \<Rightarrow>
                          bind_r (write_voxel (depth channel) d (index b1 x y z) v) (\<lambda>d'.
                            Inr (set_channel b1 channel_index (channel\<lparr>data := Some d'\<rparr>))))
                else Inr b1))"

text \<open>
  \<^verbatim>\<open>try_set_voxel(x, y, z, value, channel_index)\<close> ends in the call
  \<^verbatim>\<open>set_voxel(x, y, z, value, channel_index)\<close>, while the callee is declared
  \<^verbatim>\<open>set_voxel(uint64_t value, int x, int y, int z, unsigned int channel_index)\<close>: the
  arguments are bound by position, \<open>x\<close> converted to \<^verbatim>\<open>uint64_t\<close>.
\<close>

definition try_set_voxel ::
  "pool \<Rightarrow> int \<Rightarrow> int \<Rightarrow> int \<Rightarrow> int \<Rightarrow> nat \<Rightarrow> VoxelBuffer \<Rightarrow> error + VoxelBuffer" where
  "try_set_voxel pool x y z value channel_index b =
     (if \<not> channel_index < MAX_CHANNELS then Inl ERR_FAIL
      else if \<not> validate_pos b x y z then Inr b
      else set_voxel pool (word_of_int x) y z value channel_index b)"

text \<open>\<^verbatim>\<open>memnew(VoxelBuffer)\<close> followed by \<^verbatim>\<open>create(sx, sy, sz)\<close>: a fresh block of the given size.\<close>

definition new_block :: "pool \<Rightarrow> int \<Rightarrow> int \<Rightarrow> int \<Rightarrow> error + VoxelBuffer" where
  "new_block pool sx sy sz = create pool sx sy sz VoxelBuffer_new"

subsection \<open>Uniformity\<close>

text \<open>
  The template \<^verbatim>\<open>is_uniform<T>(p_data, size)\<close> for an element type of \<open>w\<close> bytes: element 0 is
  read, then elements \<open>1 ..< size\<close> are compared with it, stopping at the first difference.
\<close>

fun is_uniform_loop :: "nat \<Rightarrow> 8 word list \<Rightarrow> 64 word \<Rightarrow> nat list \<Rightarrow> error + bool" where
  "is_uniform_loop w d v0 [] = Inr True"
| "is_uniform_loop w d v0 (i # is) =
     (case load_elem w d i of
        Inl e \<Rightarrow> Inl e
      | Inr v \<Rightarrow> if v \<noteq> v0 then Inr False else is_uniform_loop w d v0 is)"

definition is_uniform_T :: "nat \<Rightarrow> 8 word list \<Rightarrow> 32 word \<Rightarrow> error + bool" where
  "is_uniform_T w d n = bind_r (load_elem w d 0) (\<lambda>v0. is_uniform_loop w d v0 [1..<unat n])"

definition is_uniform :: "VoxelBuffer \<Rightarrow> nat \<Rightarrow> error + bool" where
  "is_uniform b channel_index =
     (if \<not> channel_index < MAX_CHANNELS then Inl ERR_FAIL
      else
        let channel = channel_at b channel_index
        in case data channel of
             None \<Rightarrow> Inr True
           | Some d \<Rightarrow>
               (let volume = get_volume b
                in case depth channel of
                     DEPTH_1_BIT \<Rightarrow> is_uniform_T 1 d (drop_bit 3 volume)
                   | DEPTH_8_BIT \<Rightarrow> is_uniform_T 1 d volume
                   | DEPTH_16_BIT \<Rightarrow> is_uniform_T 2 d volume
                   | DEPTH_24_BIT \<Rightarrow> is_uniform_T 1 d (volume * 3)
                   | DEPTH_32_BIT \<Rightarrow> is_uniform_T 4 d volume
                   | DEPTH_64_BIT \<Rightarrow> is_uniform_T 8 d volume))"

text \<open>
  \<^verbatim>\<open>compress_uniform_channels\<close>: a materialised channel that \<^verbatim>\<open>is_uniform\<close> accepts is
  cleared to \<^verbatim>\<open>_channels[i].data[0]\<close>, the first byte of its buffer. \<open>compress_channel i\<close>
  is the body of the loop.
\<close>

definition compress_channel :: "nat \<Rightarrow> VoxelBuffer \<Rightarrow> error + VoxelBuffer" where
  "compress_channel i b =
     (case data (channel_at b i) of
        None \<Rightarrow> Inr b
      | Some d \<Rightarrow>
          bind_r (is_uniform b i) (\<lambda>u.
            if u then bind_r (load_byte d 0) (\<lambda>first.
                        ignore_failure b (clear_channel i (ucast first) b))
            else Inr b))"

definition compress_uniform_channels :: "VoxelBuffer \<Rightarrow> error + VoxelBuffer" where
  "compress_uniform_channels b = for_each [0..<MAX_CHANNELS] compress_channel b"

subsection \<open>Copy, duplicate, equality\<close>

text \<open>
  \<^verbatim>\<open>copy_from(other, channel_index)\<close>: the full copy of one channel. The byte count given
  to \<^verbatim>\<open>memcpy\<close> is \<^verbatim>\<open>get_volume() * sizeof(uint8_t)\<close>.
\<close>

definition copy_from_channel ::
  "pool \<Rightarrow> VoxelBuffer \<Rightarrow> nat \<Rightarrow> VoxelBuffer \<Rightarrow> error + VoxelBuffer" where
  "copy_from_channel pool other channel_index b =
     (if \<not> channel_index < MAX_CHANNELS then Inl ERR_FAIL
      else if vb_size other \<noteq> vb_size b then Inl ERR_FAIL
      else
        let channel = channel_at b channel_index;
            other_channel = channel_at other channel_index
        in if depth other_channel \<noteq> depth channel then Inl ERR_FAIL
           else
             bind_r
               (case data other_channel of
                  Some src \<Rightarrow>
                    bind_r (if data channel = None
                            then create_channel_noinit pool channel_index (vb_size b) b
                            else Inr b) (\<lambda>b1.
                      case data (channel_at b1 channel_index) of
                        None \<Rightarrow> Inl OUT_OF_BOUNDS
                      | Some dst \<Rightarrow>
                          bind_r (memcpy dst src (unat (get_volume b1))) (\<lambda>d'.
                            Inr (set_channel b1 channel_index
                                  ((channel_at b1 channel_index)\<lparr>data := Some d'\<rparr>))))
                | None \<Rightarrow>
                    if data channel \<noteq> None
                    then ignore_failure b (delete_channel channel_index b)
                    else Inr b)
               (\<lambda>b2. Inr (set_channel b2 channel_index
                       ((channel_at b2 channel_index)
                          \<lparr>defval := defval other_channel, depth := depth other_channel\<rparr>))))"

text \<open>\<^verbatim>\<open>copy_from(other)\<close>: every channel in turn; a channel whose copy fails is skipped.\<close>

definition copy_from :: "pool \<Rightarrow> VoxelBuffer \<Rightarrow> VoxelBuffer \<Rightarrow> error + VoxelBuffer" where
  "copy_from pool other b =
     for_each [0..<MAX_CHANNELS] (\<lambda>i b. ignore_failure b (copy_from_channel pool other i b)) b"

definition duplicate :: "pool \<Rightarrow> VoxelBuffer \<Rightarrow> error + VoxelBuffer" where
  "duplicate pool b =
     (case vb_size b of (sx, sy, sz) \<Rightarrow>
        bind_r (new_block pool sx sy sz) (\<lambda>d. copy_from pool b d))"

fun compare_bytes :: "8 word list \<Rightarrow> 8 word list \<Rightarrow> nat list \<Rightarrow> error + bool" where
  "compare_bytes d od [] = Inr True"
| "compare_bytes d od (i # is) =
     (case load_byte d i of
        Inl e \<Rightarrow> Inl e
      | Inr x \<Rightarrow>
          (case load_byte od i of
             Inl e \<Rightarrow> Inl e
           | Inr y \<Rightarrow> if x \<noteq> y then Inr False else compare_bytes d od is))"

fun equals_channels :: "nat list \<Rightarrow> VoxelBuffer \<Rightarrow> VoxelBuffer \<Rightarrow> error + bool" where
  "equals_channels [] b other = Inr True"
| "equals_channels (ci # cs) b other =
     (let channel = channel_at b ci; other_channel = channel_at other ci
      in if (data channel = None) \<noteq> (data other_channel = None) then Inr False
         else if depth channel \<noteq> depth other_channel then Inr False
         else
           (case data channel of
              None \<Rightarrow>
                if defval channel \<noteq> defval other_channel then Inr False
                else equals_channels cs b other
            | Some d \<Rightarrow>
                (case data other_channel of
                   None \<Rightarrow> Inl OUT_OF_BOUNDS
                 | Some od \<Rightarrow>
                     if size_in_bytes channel \<noteq> size_in_bytes other_channel then Inl CRASH
                     else
                       (case compare_bytes d od [0..<unat (size_in_bytes channel)] of
                          Inl e \<Rightarrow> Inl e
                        | Inr same \<Rightarrow>
                            if same then equals_channels cs b other else Inr False))))"

text \<open>\<^verbatim>\<open>equals(p_other)\<close>: \<open>None\<close> is the null pointer.\<close>

definition equals :: "VoxelBuffer \<Rightarrow> VoxelBuffer option \<Rightarrow> error + bool" where
  "equals b p_other =
     (case p_other of
        None \<Rightarrow> Inl CRASH
      | Some other \<Rightarrow>
          if vb_size other \<noteq> vb_size b then Inr False
          else equals_channels [0..<MAX_CHANNELS] b other)"

subsection \<open>Downscaling\<close>

text \<open>
  Modelled from the spec: \<^verbatim>\<open>Vector3i\<close> is declared in a header that is not among the
  sources. Sums, differences and shifts work per component (\<^verbatim>\<open>>> 1\<close> halves, rounding
  down; \<^verbatim>\<open><< 1\<close> doubles). \<^verbatim>\<open>clamp_to(min, max)\<close> clamps each component into the range
  from \<open>min\<close> inclusive to \<open>max\<close> exclusive, which is why the source passes
  \<^verbatim>\<open>_size + Vector3i(1)\<close> for a bound that may reach the size itself.
\<close>

definition v_add :: "Vector3i \<Rightarrow> Vector3i \<Rightarrow> Vector3i" where
  "v_add a b = (case a of (ax, ay, az) \<Rightarrow> case b of (bx, by, bz) \<Rightarrow> (ax + bx, ay + by, az + bz))"

definition v_sub :: "Vector3i \<Rightarrow> Vector3i \<Rightarrow> Vector3i" where
  "v_sub a b = (case a of (ax, ay, az) \<Rightarrow> case b of (bx, by, bz) \<Rightarrow> (ax - bx, ay - by, az - bz))"

definition v_shr1 :: "Vector3i \<Rightarrow> Vector3i" where
  "v_shr1 a = (case a of (ax, ay, az) \<Rightarrow> (ax div 2, ay div 2, az div 2))"

definition v_shl1 :: "Vector3i \<Rightarrow> Vector3i" where
  "v_shl1 a = (case a of (ax, ay, az) \<Rightarrow> (ax * 2, ay * 2, az * 2))"

definition clamp1 :: "int \<Rightarrow> int \<Rightarrow> int \<Rightarrow> int" where
  "clamp1 x lo hi = (let x1 = (if x < lo then lo else x) in if x1 \<ge> hi then hi - 1 else x1)"

definition clamp_to :: "Vector3i \<Rightarrow> Vector3i \<Rightarrow> Vector3i \<Rightarrow> Vector3i" where
  "clamp_to a lo hi =
     (case a of (ax, ay, az) \<Rightarrow> case lo of (lx, ly, lz) \<Rightarrow> case hi of (hx, hy, hz) \<Rightarrow>
        (clamp1 ax lx hx, clamp1 ay ly hy, clamp1 az lz hz))"

text \<open>
  \<^verbatim>\<open>src.downscale_to(dst, src_min, src_max, dst_min)\<close>; the result is the new \<open>dst\<close>. The
  loops run over \<open>z\<close>, then \<open>x\<close>, then \<open>y\<close>. In the loop body \<^verbatim>\<open>src_pos\<close> is computed and
  checked, and the value is read with \<^verbatim>\<open>get_voxel(pos, channel_index)\<close>.
\<close>

definition downscale_to ::
  "pool \<Rightarrow> VoxelBuffer \<Rightarrow> VoxelBuffer \<Rightarrow> Vector3i \<Rightarrow> Vector3i \<Rightarrow> Vector3i \<Rightarrow> error + VoxelBuffer" where
  "downscale_to pool src dst src_min0 src_max0 dst_min0 =
     (let src_min = clamp_to src_min0 (0, 0, 0) (vb_size src);
          src_max = clamp_to src_max0 (0, 0, 0) (v_add (vb_size src) (1, 1, 1));
          dst_max0 = v_add dst_min0 (v_shr1 (v_sub src_max src_min));
          dst_min = clamp_to dst_min0 (0, 0, 0) (vb_size dst);
          dst_max = clamp_to dst_max0 (0, 0, 0) (v_add (vb_size dst) (1, 1, 1))
      in case dst_min of (min_x, min_y, min_z) \<Rightarrow> case dst_max of (max_x, max_y, max_z) \<Rightarrow>
         for_each [0..<MAX_CHANNELS] (\<lambda>channel_index dst.
           let src_channel = channel_at src channel_index;
               dst_channel = channel_at dst channel_index
           in if data src_channel = None \<and> data dst_channel = None
                 \<and> defval src_channel = defval dst_channel
              then Inr dst
              else
                for_each [min_z..max_z - 1] (\<lambda>z dst.
                for_each [min_x..max_x - 1] (\<lambda>x dst.
                for_each [min_y..max_y - 1] (\<lambda>y dst.
                  case v_add src_min (v_shl1 (v_sub (x, y, z) dst_min)) of (src_x, src_y, src_z) \<Rightarrow>
                  if \<not> validate_pos src src_x src_y src_z then Inl CRASH
                  else
                    bind_r (if data src_channel \<noteq> None then get_voxel src x y z channel_index
                            else Inr (defval src_channel)) (\<lambda>v.
                      ignore_failure dst (set_voxel pool v x y z channel_index dst))) dst) dst) dst)
           dst)"

subsection \<open>Reading a voxel as a real number\<close>

text \<open>
  \<^verbatim>\<open>real_t\<close> values are modelled as exact reals. For the raw values a channel of depth 24 or
  less can hold (below \<open>2^24\<close>) the conversion to \<^verbatim>\<open>real_t\<close> and the subtraction are exact
  in single precision, and the quotient is a fraction of small integers whose integer part
  the rounding of the division does not change.

  \<^verbatim>\<open>raw_voxel_to_real\<close> is declared \<^verbatim>\<open>inline uint64_t raw_voxel_to_real(uint64_t, Depth)\<close>:
  each \<^verbatim>\<open>return\<close> converts its operand to \<^verbatim>\<open>uint64_t\<close>. The conversion of a floating-point
  value truncates towards zero and is undefined when the truncated value is not a
  \<^verbatim>\<open>uint64_t\<close>.
\<close>

definition real_to_uint64 :: "real \<Rightarrow> error + 64 word" where
  "real_to_uint64 r =
     (if - 1 < r \<and> r < 2 ^ 64 then Inr (word_of_int (if 0 \<le> r then \<lfloor>r\<rfloor> else \<lceil>r\<rceil>))
      else Inl OUT_OF_BOUNDS)"

text \<open>
  The bit casts of \<^verbatim>\<open>MarshallFloat\<close> and \<^verbatim>\<open>MarshallDouble\<close> (Godot's marshalls.h) are
  parameters: \<open>float_bits_to_uint64 i\<close> is the \<^verbatim>\<open>uint64_t\<close> conversion of the \<^verbatim>\<open>float\<close> whose
  bit pattern is \<open>i\<close>; \<open>uint64_to_double_bits v\<close> is the bit pattern of the \<^verbatim>\<open>double\<close> that
  \<open>v\<close> converts to.
\<close>

record Marshall =
  float_bits_to_uint64 :: "32 word \<Rightarrow> error + 64 word"
  uint64_to_double_bits :: "64 word \<Rightarrow> 64 word"

definition raw_voxel_to_real :: "Marshall \<Rightarrow> 64 word \<Rightarrow> Depth \<Rightarrow> error + 64 word" where
  "raw_voxel_to_real m v d =
     (case d of
        DEPTH_1_BIT \<Rightarrow> Inr (if v \<noteq> 0 then 1 else - 1)
      | DEPTH_8_BIT \<Rightarrow> real_to_uint64 ((real (unat v) - 0x7f) / 0x7f)
      | DEPTH_16_BIT \<Rightarrow> real_to_uint64 ((real (unat v) - 0x7fff) / 0x7fff)
      | DEPTH_24_BIT \<Rightarrow> real_to_uint64 ((real (unat v) - 0x7fffff) / 0x7fffff)
      | DEPTH_32_BIT \<Rightarrow> float_bits_to_uint64 m (ucast v)
      | DEPTH_64_BIT \<Rightarrow> Inr (uint64_to_double_bits m v))"

text \<open>
  \<^verbatim>\<open>get_voxel_f\<close> returns the \<^verbatim>\<open>uint64_t\<close> it receives from \<^verbatim>\<open>raw_voxel_to_real\<close>,
  converted to \<^verbatim>\<open>real_t\<close>.
\<close>

definition get_voxel_f :: "Marshall \<Rightarrow> VoxelBuffer \<Rightarrow> int \<Rightarrow> int \<Rightarrow> int \<Rightarrow> nat \<Rightarrow> error + real" where
  "get_voxel_f m b x y z channel_index =
     (if \<not> channel_index < MAX_CHANNELS then Inl ERR_FAIL
      else
        bind_r (get_voxel b x y z channel_index) (\<lambda>raw.
        bind_r (raw_voxel_to_real m raw (depth (channel_at b channel_index))) (\<lambda>r.
          Inr (real (unat r)))))"

section \<open>The load-block task (src/streams/load\_block\_data\_task.cpp)\<close>

subsection \<open>Collaborators\<close>

text \<open>
  Modelled from the spec: the stream, the generator, the engine singleton and the volume
  callbacks are declared in headers that are not among the sources. The spec's section on
  external interfaces gives their contracts:
  \<^item> \<^verbatim>\<open>load_voxel_block\<close> writes voxels into the buffer and sets a result code;
  \<^item> \<^verbatim>\<open>supports_instance_blocks\<close> is a flag of the stream;
  \<^item> \<^verbatim>\<open>load_instance_blocks\<close> fills, for a query \<open>(lod, position)\<close>, its data and result;
  \<^item> the registry answers \<^verbatim>\<open>is_volume_valid\<close> and \<^verbatim>\<open>get_volume_callbacks\<close>;
  \<^item> the runtime takes tasks with \<^verbatim>\<open>push_async_task\<close>.
  The block type (\<^verbatim>\<open>VoxelBufferInternal\<close>) and the instance payload are type parameters
  \<open>'vox\<close> and \<open>'inst\<close>; generators, priority dependencies, voxel data and callback
  functions are opaque handles.
\<close>

datatype ResultCode = RESULT_ERROR | RESULT_BLOCK_NOT_FOUND | RESULT_BLOCK_FOUND

type_synonym handle = nat

record ('vox, 'inst) VoxelStream =
  load_voxel_block :: "'vox \<Rightarrow> Vector3i \<Rightarrow> 8 word \<Rightarrow> 'vox \<times> ResultCode"
  supports_instance_blocks :: bool
  load_instance_blocks :: "8 word \<Rightarrow> Vector3i \<Rightarrow> 'inst option \<times> ResultCode"

text \<open>\<^verbatim>\<open>StreamingDependency\<close>: \<open>None\<close> is a null reference.\<close>

record ('vox, 'inst) StreamingDependency =
  stream :: "('vox, 'inst) VoxelStream option"
  generator :: "handle option"
  valid :: bool

record ('vox, 'inst) LoadBlockDataTask =
  priority_dependency :: handle
  position :: Vector3i
  volume_id :: nat
  lod_index :: "8 word"
  block_size :: "8 word"
  request_instances :: bool
  generate_cache_data :: bool
  generator_use_gpu :: bool
  stream_dependency :: "('vox, 'inst) StreamingDependency option"
  voxel_data :: "handle option"
  voxels :: "'vox option"
  instances :: "'inst option"
  has_run :: bool
  too_far :: bool
  requested_generator_task :: bool
  max_lod_hint :: "8 word"

text \<open>\<^verbatim>\<open>VoxelGenerator::BlockTaskParams\<close>, as \<^verbatim>\<open>run\<close> fills it.\<close>

record ('vox, 'inst) BlockTaskParams =
  p_voxels :: "'vox option"
  p_volume_id :: nat
  p_block_position :: Vector3i
  p_lod_index :: "8 word"
  p_block_size :: "8 word"
  p_stream_dependency :: "('vox, 'inst) StreamingDependency option"
  p_priority_dependency :: handle
  p_use_gpu :: bool
  p_data :: "handle option"

datatype BlockDataOutputType = TYPE_LOADED | TYPE_GENERATED | TYPE_SAVED

text \<open>\<^verbatim>\<open>VoxelEngine::BlockDataOutput\<close>, as \<^verbatim>\<open>apply_result\<close> fills it.\<close>

record ('vox, 'inst) BlockDataOutput =
  o_voxels :: "'vox option"
  o_instances :: "'inst option"
  o_position :: Vector3i
  o_lod_index :: "8 word"
  o_dropped :: bool
  o_max_lod_hint :: "8 word"
  o_initial_load :: bool
  o_type :: BlockDataOutputType

text \<open>\<^verbatim>\<open>VolumeCallbacks\<close>: the function pointer (\<open>None\<close> is null) and its user data.\<close>

record VolumeCallbacks =
  data_output_callback :: "handle option"
  cb_data :: handle

datatype log_entry =
  Error_loading_voxel_block
| Error_loading_instance_block
| Condition_voxels_not_null
| Condition_instances_not_null
| Volume_not_found

text \<open>
  The process state the task acts on: the registry of volumes, the tasks pushed to the
  runtime (generator handle and parameters), the invocations of volume callbacks in order
  (the callbacks invoked and the bundle passed), the error log, the verbose log, and
  whether a \<^verbatim>\<open>CRASH_COND\<close> (or a null dereference) has stopped the process.
\<close>

record ('vox, 'inst) VoxelEngine =
  volumes :: "nat \<Rightarrow> VolumeCallbacks option"
  async_tasks :: "(handle \<times> ('vox, 'inst) BlockTaskParams) list"
  callback_calls :: "(VolumeCallbacks \<times> ('vox, 'inst) BlockDataOutput) list"
  error_log :: "log_entry list"
  verbose_log :: "log_entry list"
  crashed :: bool

definition is_volume_valid :: "('vox, 'inst) VoxelEngine \<Rightarrow> nat \<Rightarrow> bool" where
  "is_volume_valid e vid = (volumes e vid \<noteq> None)"

definition push_async_task ::
  "('vox, 'inst) VoxelEngine \<Rightarrow> handle \<times> ('vox, 'inst) BlockTaskParams \<Rightarrow> ('vox, 'inst) VoxelEngine" where
  "push_async_task e task = e\<lparr>async_tasks := async_tasks e @ [task]\<rparr>"

definition log_error :: "('vox, 'inst) VoxelEngine \<Rightarrow> log_entry \<Rightarrow> ('vox, 'inst) VoxelEngine" where
  "log_error e m = e\<lparr>error_log := error_log e @ [m]\<rparr>"

definition crash :: "('vox, 'inst) VoxelEngine \<Rightarrow> ('vox, 'inst) VoxelEngine" where
  "crash e = e\<lparr>crashed := True\<rparr>"

subsection \<open>run\<close>

definition origin_in_voxels :: "('vox, 'inst) LoadBlockDataTask \<Rightarrow> Vector3i" where
  "origin_in_voxels t =
     (case position t of (x, y, z) \<Rightarrow>
        let k = 2 ^ unat (lod_index t); n = uint (block_size t)
        in (x * k * n, y * k * n, z * k * n))"

text \<open>
  The dispatch on the result of the voxel query (the first \<^verbatim>\<open>if\<close> chain of \<^verbatim>\<open>run\<close>);
  \<open>t\<close> already holds the block the stream has written to.
\<close>

definition dispatch_voxel_result ::
  "ResultCode \<Rightarrow> ('vox, 'inst) StreamingDependency \<Rightarrow> ('vox, 'inst) LoadBlockDataTask \<Rightarrow>
   ('vox, 'inst) VoxelEngine \<Rightarrow> ('vox, 'inst) LoadBlockDataTask \<times> ('vox, 'inst) VoxelEngine" where
  "dispatch_voxel_result res dep t e =
     (if res = RESULT_ERROR then (t, log_error e Error_loading_voxel_block)
      else if res = RESULT_BLOCK_NOT_FOUND then
        (if generate_cache_data t then
           (case generator dep of
              Some g \<Rightarrow>
                (let params =
                   \<lparr>p_voxels = voxels t, p_volume_id = volume_id t,
                    p_block_position = position t, p_lod_index = lod_index t,
                    p_block_size = block_size t, p_stream_dependency = stream_dependency t,
                    p_priority_dependency = priority_dependency t,
                    p_use_gpu = generator_use_gpu t, p_data = voxel_data t\<rparr>
                 in (t\<lparr>requested_generator_task := True\<rparr>, push_async_task e (g, params)))
            | None \<Rightarrow> (t, e))
         else (t\<lparr>voxels := None\<rparr>, e))
      else (t, e))"

text \<open>
  The instance part of \<^verbatim>\<open>run\<close>. \<open>res\<close> is the result of the voxel query: the source's
  second test reads \<^verbatim>\<open>voxel_query_data.result == VoxelStream::RESULT_BLOCK_FOUND\<close>.
\<close>

definition load_instances ::
  "ResultCode \<Rightarrow> ('vox, 'inst) VoxelStream \<Rightarrow> ('vox, 'inst) LoadBlockDataTask \<Rightarrow>
   ('vox, 'inst) VoxelEngine \<Rightarrow> ('vox, 'inst) LoadBlockDataTask \<times> ('vox, 'inst) VoxelEngine" where
  "load_instances res st t e =
     (if request_instances t \<and> supports_instance_blocks st then
        (if instances t \<noteq> None then (t, log_error e Condition_instances_not_null)
         else
           case load_instance_blocks st (lod_index t) (position t) of (payload, instances_result) \<Rightarrow>
             if instances_result = RESULT_ERROR
             then (t\<lparr>has_run := True\<rparr>, log_error e Error_loading_instance_block)
             else if res = RESULT_BLOCK_FOUND
             then (t\<lparr>instances := payload, has_run := True\<rparr>, e)
             else (t\<lparr>has_run := True\<rparr>, e))
      else (t\<lparr>has_run := True\<rparr>, e))"

text \<open>
  \<^verbatim>\<open>run\<close>; \<open>mk n\<close> is the fresh block \<^verbatim>\<open>make_shared_instance<VoxelBufferInternal>()\<close> after
  \<^verbatim>\<open>create(n, n, n)\<close>.
\<close>

definition run ::
  "(8 word \<Rightarrow> 'vox) \<Rightarrow> ('vox, 'inst) LoadBlockDataTask \<Rightarrow> ('vox, 'inst) VoxelEngine \<Rightarrow>
   ('vox, 'inst) LoadBlockDataTask \<times> ('vox, 'inst) VoxelEngine" where
  "run mk t e =
     (case stream_dependency t of
        None \<Rightarrow> (t, crash e)
      | Some dep \<Rightarrow>
          (case stream dep of
             None \<Rightarrow> (t, crash e)
           | Some st \<Rightarrow>
               if voxels t \<noteq> None then (t, log_error e Condition_voxels_not_null)
               else
                 case load_voxel_block st (mk (block_size t)) (origin_in_voxels t) (lod_index t)
                 of (vox, res) \<Rightarrow>
                   case dispatch_voxel_result res dep (t\<lparr>voxels := Some vox\<rparr>) e of (t1, e1) \<Rightarrow>
                     load_instances res st t1 e1))"

subsection \<open>apply\_result\<close>

definition apply_result ::
  "('vox, 'inst) LoadBlockDataTask \<Rightarrow> ('vox, 'inst) VoxelEngine \<Rightarrow>
   ('vox, 'inst) LoadBlockDataTask \<times> ('vox, 'inst) VoxelEngine" where
  "apply_result t e =
     (if is_volume_valid e (volume_id t) then
        (case stream_dependency t of
           None \<Rightarrow> (t, crash e)
         | Some dep \<Rightarrow>
             if valid dep \<and> \<not> requested_generator_task t then
               (let out =
                  \<lparr>o_voxels = voxels t, o_instances = instances t, o_position = position t,
                   o_lod_index = lod_index t, o_dropped = (\<not> has_run t),
                   o_max_lod_hint = max_lod_hint t, o_initial_load = False,
                   o_type = TYPE_LOADED\<rparr>;
                    t' = t\<lparr>instances := None\<rparr>
                in case volumes e (volume_id t) of
                     None \<Rightarrow> (t', crash e)
                   | Some callbacks \<Rightarrow>
                       (case data_output_callback callbacks of
                          None \<Rightarrow> (t', crash e)
                        | Some f \<Rightarrow>
                            (t', e\<lparr>callback_calls := callback_calls e @ [(callbacks, out)]\<rparr>)))
             else (t, e))
      else (t, e\<lparr>verbose_log := verbose_log e @ [Volume_not_found]\<rparr>))"

text \<open>
  What the claims speak of: the dependency's flag as the task sees it (a null dependency
  has no flag set), and the registry invariant that \<^verbatim>\<open>apply_result\<close> asserts with
  \<^verbatim>\<open>CRASH_COND(callbacks.data_output_callback == nullptr)\<close>.
\<close>

definition dependency_valid :: "('vox, 'inst) LoadBlockDataTask \<Rightarrow> bool" where
  "dependency_valid t = (case stream_dependency t of None \<Rightarrow> False | Some dep \<Rightarrow> valid dep)"

definition volume_callback_set :: "('vox, 'inst) VoxelEngine \<Rightarrow> nat \<Rightarrow> bool" where
  "volume_callback_set e vid =
     (case volumes e vid of None \<Rightarrow> True | Some cbs \<Rightarrow> data_output_callback cbs \<noteq> None)"

text \<open>
  Well-formed blocks of the default depth. A channel of depth D8 is well formed for a
  block of \<open>volume\<close> voxels when its \<open>defval\<close> is clamped and, if it is materialised,
  its buffer holds one byte per voxel and \<open>size_in_bytes\<close> says so. A block is well formed
  when it has its eight channels, a positive size whose volume in bits fits 32 bits, and
  well-formed D8 channels. These are the blocks that the constructor, a first \<^verbatim>\<open>create\<close>
  and the voxel operations build; \<^verbatim>\<open>set_channel_depth\<close> keeps them so, because it does not
  store the depth. A \<^verbatim>\<open>create\<close> that changes the size of a block with a materialised
  channel leaves the set: the channel keeps a buffer of the old size.
\<close>

definition channel_d8_ok :: "32 word \<Rightarrow> Channel \<Rightarrow> bool" where
  "channel_d8_ok volume ch =
     (depth ch = DEPTH_8_BIT \<and> defval ch \<le> 0xff \<and>
      (case data ch of
         None \<Rightarrow> True
       | Some d \<Rightarrow> length d = unat volume \<and> size_in_bytes ch = volume))"

definition block_d8_ok :: "VoxelBuffer \<Rightarrow> bool" where
  "block_d8_ok b =
     (length (channels b) = MAX_CHANNELS
      \<and> (case vb_size b of (sx, sy, sz) \<Rightarrow>
            0 < sx \<and> 0 < sy \<and> 0 < sz \<and> sx * sy * sz < 2 ^ 29)
      \<and> list_all (channel_d8_ok (get_volume b)) (channels b))"

text \<open>\<open>ch\<close> holds what a full copy of the channel \<open>src\<close> must hold.\<close>

definition channel_copied :: "32 word \<Rightarrow> Channel \<Rightarrow> Channel \<Rightarrow> bool" where
  "channel_copied volume src ch =
     (data ch = data src \<and> defval ch = defval src \<and> depth ch = depth src
      \<and> (case data src of None \<Rightarrow> True | Some d \<Rightarrow> size_in_bytes ch = volume))"

text \<open>
  A channel that \<^verbatim>\<open>compress_uniform_channels\<close> leaves alone: it is uniform already, or
  \<^verbatim>\<open>is_uniform\<close> rejects it.
\<close>

definition settled :: "VoxelBuffer \<Rightarrow> nat \<Rightarrow> bool" where
  "settled b i = (data (channel_at b i) = None \<or> is_uniform b i = Inr False)"

section \<open>Concrete inputs\<close>



text \<open>
  Blocks resized after a channel was materialised, built by the public operations:
  \<^verbatim>\<open>create(2,2,2); set_voxel(5, 0,0,0, TYPE); create(4,4,4)\<close> and
  \<^verbatim>\<open>create(4,4,4); set_voxel(5, 0,0,0, TYPE); create(2,2,2)\<close>.
\<close>

definition block_grown :: "pool \<Rightarrow> error + VoxelBuffer" where
  "block_grown pool =
     bind_r (new_block pool 2 2 2) (\<lambda>b.
     bind_r (set_voxel pool 5 0 0 0 CHANNEL_TYPE b) (\<lambda>b.
       create pool 4 4 4 b))"

definition block_shrunk :: "pool \<Rightarrow> error + VoxelBuffer" where
  "block_shrunk pool =
     bind_r (new_block pool 4 4 4) (\<lambda>b.
     bind_r (set_voxel pool 5 0 0 0 CHANNEL_TYPE b) (\<lambda>b.
       create pool 2 2 2 b))"

text \<open>
  A \<open>4\<times>2\<times>2\<close> source block for downscaling: TYPE holds 5 at \<open>(1, 0, 0)\<close> and 9 at
  \<open>(2, 0, 0)\<close>.
\<close>

definition downscale_src :: "pool \<Rightarrow> error + VoxelBuffer" where
  "downscale_src pool =
     bind_r (new_block pool 4 2 2) (\<lambda>s.
     bind_r (set_voxel pool 5 1 0 0 CHANNEL_TYPE s) (\<lambda>s.
       set_voxel pool 9 2 0 0 CHANNEL_TYPE s))"


text \<open>
  A stream that answers the voxel query and the instance query with the given result
  codes (the instance payload is 42), a task for volume 7 on it, and an engine in which
  volume 7 is registered. Blocks are represented by their edge length.
\<close>

definition demo_stream :: "ResultCode \<Rightarrow> ResultCode \<Rightarrow> (nat, nat) VoxelStream" where
  "demo_stream voxel_result instances_result =
     \<lparr>load_voxel_block = (\<lambda>vox origin lod. (vox, voxel_result)),
      supports_instance_blocks = True,
      load_instance_blocks = (\<lambda>lod pos. (Some 42, instances_result))\<rparr>"

definition demo_task ::
  "(nat, nat) VoxelStream \<Rightarrow> handle option \<Rightarrow> bool \<Rightarrow> (nat, nat) LoadBlockDataTask" where
  "demo_task st gen cache =
     \<lparr>priority_dependency = 0, position = (1, 2, 3), volume_id = 7, lod_index = 0,
      block_size = 16, request_instances = True, generate_cache_data = cache,
      generator_use_gpu = False,
      stream_dependency = Some \<lparr>stream = Some st, generator = gen, valid = True\<rparr>,
      voxel_data = None, voxels = None, instances = None, has_run = False, too_far = False,
      requested_generator_task = False, max_lod_hint = 0\<rparr>"

definition demo_callbacks :: VolumeCallbacks where
  "demo_callbacks = \<lparr>data_output_callback = Some 1, cb_data = 2\<rparr>"

definition demo_engine :: "(nat, nat) VoxelEngine" where
  "demo_engine =
     \<lparr>volumes = (\<lambda>vid. if vid = 7 then Some demo_callbacks else None),
      async_tasks = [], callback_calls = [], error_log = [], verbose_log = [],
      crashed = False\<rparr>"

text \<open>
  A well-formed \<open>1\<times>1\<times>2\<close> block whose TYPE channel is materialised with both voxels 7
  (the result of \<^verbatim>\<open>create(1,1,2); set_voxel(7, 0,0,0, TYPE); set_voxel(7, 0,0,1, TYPE)\<close>),
  and the same block with that channel folded.
\<close>

definition block_d8_demo :: VoxelBuffer where
  "block_d8_demo =
     \<lparr>channels = [default_channel\<lparr>data := Some [7, 7], size_in_bytes := 2\<rparr>,
                  default_channel\<lparr>defval := 255\<rparr>, default_channel, default_channel,
                  default_channel, default_channel, default_channel, default_channel],
      vb_size = (1, 1, 2)\<rparr>"

definition block_d8_demo_compressed :: VoxelBuffer where
  "block_d8_demo_compressed =
     \<lparr>channels = [default_channel\<lparr>defval := 7\<rparr>, default_channel\<lparr>defval := 255\<rparr>,
                  default_channel, default_channel, default_channel, default_channel,
                  default_channel, default_channel],
      vb_size = (1, 1, 2)\<rparr>"

section \<open>Auxiliary facts\<close>

lemma for_each_append:
  "for_each (xs @ ys) f s = bind_r (for_each xs f s) (for_each ys f)"
  by (induction xs arbitrary: s) (auto simp: bind_r_def split: sum.splits)

lemma length_allocate [simp]: "length (allocate_channel_data pool n) = unat n"
  by (simp add: allocate_channel_data_def)


text \<open>What \<^verbatim>\<open>apply_result\<close> appends to the record of callback invocations.\<close>

lemma apply_result_calls:
  "volume_callback_set e (volume_id t) \<Longrightarrow>
   callback_calls (snd (apply_result t e)) =
     callback_calls e @
       (case volumes e (volume_id t) of
          None \<Rightarrow> []
        | Some cbs \<Rightarrow>
            if dependency_valid t \<and> \<not> requested_generator_task t
            then [(cbs, \<lparr>o_voxels = voxels t, o_instances = instances t,
                         o_position = position t, o_lod_index = lod_index t,
                         o_dropped = (\<not> has_run t), o_max_lod_hint = max_lod_hint t,
                         o_initial_load = False, o_type = TYPE_LOADED\<rparr>)]
            else [])"
  by (auto simp: apply_result_def is_volume_valid_def dependency_valid_def crash_def
        volume_callback_set_def split: option.splits)

text \<open>\<^verbatim>\<open>apply_result\<close> passes on the task's block, whatever the engine's state.\<close>

lemma apply_result_voxels:
  "list_all (\<lambda>c. o_voxels (snd c) = voxels t)
     (drop (length (callback_calls e)) (callback_calls (snd (apply_result t e))))"
  by (auto simp: apply_result_def crash_def Let_def split: option.splits)

lemma load_instances_voxels: "voxels (fst (load_instances res st t e)) = voxels t"
  by (auto simp: load_instances_def split: prod.splits)

subsection \<open>Channel updates\<close>

lemma channel_at_set_channel [simp]:
  "c < length (channels b) \<Longrightarrow> channel_at (set_channel b c ch) c = ch"
  by (simp add: channel_at_def set_channel_def)

lemma channel_at_set_channel_other [simp]:
  "j \<noteq> i \<Longrightarrow> channel_at (set_channel b i ch) j = channel_at b j"
  by (simp add: channel_at_def set_channel_def)

lemma vb_size_set_channel [simp]: "vb_size (set_channel b c ch) = vb_size b"
  by (simp add: set_channel_def)

lemma length_channels_set_channel [simp]:
  "length (channels (set_channel b c ch)) = length (channels b)"
  by (simp add: set_channel_def)

lemma set_channel_twice [simp]:
  "set_channel (set_channel b c ch) c ch' = set_channel b c ch'"
  by (simp add: set_channel_def)

lemma validate_pos_set_channel [simp]:
  "validate_pos (set_channel b c ch) x y z = validate_pos b x y z"
  by (simp add: validate_pos_def)

lemma index_set_channel [simp]: "index (set_channel b c ch) x y z = index b x y z"
  by (simp add: index_def)

lemma get_volume_set_channel [simp]: "get_volume (set_channel b c ch) = get_volume b"
  by (simp add: get_volume_def)

subsection \<open>The linear index\<close>

text \<open>Inside the block the linear index is below the volume and determines the position.\<close>

lemma index_bounds:
  assumes "validate_pos b x y z" and "vb_size b = (sx, sy, sz)"
  shows "0 \<le> y + sy * (x + sx * z)" and "y + sy * (x + sx * z) < sx * sy * sz"
proof -
  from assms have r: "0 \<le> x" "x < sx" "0 \<le> y" "y < sy" "0 \<le> z" "z < sz"
    by (auto simp: validate_pos_def)
  then show "0 \<le> y + sy * (x + sx * z)" by simp
  from r have "x + sx * z \<le> (sx - 1) + sx * (sz - 1)"
    by (intro add_mono mult_left_mono) auto
  also have "\<dots> = sx * sz - 1" by (simp add: algebra_simps)
  finally have "sy * (x + sx * z) \<le> sy * (sx * sz - 1)"
    using r by (intro mult_left_mono) auto
  then have "y + sy * (x + sx * z) \<le> (sy - 1) + sy * (sx * sz - 1)"
    using r by linarith
  also have "\<dots> = sx * sy * sz - 1" by (simp add: algebra_simps)
  finally show "y + sy * (x + sx * z) < sx * sy * sz" by simp
qed

lemma index_inj:
  assumes "validate_pos b x y z" and "validate_pos b x' y' z'" and "vb_size b = (sx, sy, sz)"
    and "y + sy * (x + sx * z) = y' + sy * (x' + sx * z')"
  shows "x = x' \<and> y = y' \<and> z = z'"
proof -
  from assms have r: "0 \<le> x" "x < sx" "0 \<le> y" "y < sy" "0 \<le> z" "z < sz"
    "0 \<le> x'" "x' < sx" "0 \<le> y'" "y' < sy" "0 \<le> z'" "z' < sz"
    by (auto simp: validate_pos_def)
  have "(y + sy * (x + sx * z)) mod sy = y" "(y' + sy * (x' + sx * z')) mod sy = y'"
    using r by simp_all
  with assms(4) have y: "y = y'" by simp
  have "(y + sy * (x + sx * z)) div sy = x + sx * z"
    "(y' + sy * (x' + sx * z')) div sy = x' + sx * z'"
    using r by simp_all
  with assms(4) have e: "x + sx * z = x' + sx * z'" by simp
  have "(x + sx * z) mod sx = x" "(x' + sx * z') mod sx = x'" using r by simp_all
  with e have x: "x = x'" by simp
  have "(x + sx * z) div sx = z" "(x' + sx * z') div sx = z'" using r by simp_all
  with e have "z = z'" by simp
  with x y show ?thesis by simp
qed



subsection \<open>Words\<close>

lemma uint_word_of_int_32:
  assumes "0 \<le> k" and "k < 2 ^ 32"
  shows "uint (word_of_int k :: 32 word) = k"
proof -
  have "take_bit 32 k = k" using assms by (rule take_bit_int_eq_self)
  then show ?thesis by (simp add: uint_word_of_int_eq)
qed

lemma unat_word_of_int_32:
  assumes "0 \<le> k" and "k < 2 ^ 32"
  shows "unat (word_of_int k :: 32 word) = nat k"
  unfolding unat_eq_nat_uint uint_word_of_int_32 [OF assms] ..

lemma unat_index:
  assumes "validate_pos b x y z" and "vb_size b = (sx, sy, sz)" and "sx * sy * sz < 2 ^ 32"
  shows "unat (index b x y z) = nat (y + sy * (x + sx * z))"
proof -
  from index_bounds [OF assms(1,2)] assms(3)
  have "0 \<le> y + sy * (x + sx * z)" "y + sy * (x + sx * z) < 2 ^ 32" by linarith+
  from unat_word_of_int_32 [OF this] show ?thesis
    by (simp only: index_def assms(2) prod.case)
qed

lemma size_in_bytes_d8:
  assumes "0 \<le> n" and "n < 2 ^ 29"
  shows "drop_bit 3 ((word_of_int n :: 32 word) * 8) = word_of_int n"
proof -
  have b: "0 \<le> n * 8" "n * 8 < 2 ^ 32" using assms by auto
  have n32: "n < 2 ^ 32" using assms(2) by auto
  have "(word_of_int n :: 32 word) * 8 = word_of_int n * word_of_int 8" by simp
  also have "\<dots> = word_of_int (n * 8)" by (simp only: of_int_mult)
  finally have u: "unat ((word_of_int n :: 32 word) * 8) = nat (n * 8)"
    using unat_word_of_int_32 [OF b] by simp
  have "unat (drop_bit 3 ((word_of_int n :: 32 word) * 8))
          = drop_bit 3 (unat ((word_of_int n :: 32 word) * 8))"
    by (rule unat_drop_bit_eq)
  also have "\<dots> = drop_bit 3 (nat (n * 8))" by (simp only: u)
  also have "\<dots> = nat n" using assms(1) by (simp add: drop_bit_eq_div nat_mult_distrib)
  also have "\<dots> = unat (word_of_int n :: 32 word)"
    using unat_word_of_int_32 [OF assms(1) n32] by simp
  finally show ?thesis by (simp only: word_unat_eq_iff)
qed

lemma ucast_64_8_64:
  assumes "(v :: 64 word) \<le> 0xff"
  shows "(ucast (ucast v :: 8 word) :: 64 word) = v"
proof -
  have "unat v \<le> 255" using assms by (simp add: word_le_nat_alt)
  then have "take_bit 8 (unat v) = unat v" by (simp add: take_bit_nat_eq_self)
  moreover have "take_bit 64 (unat v) = unat v"
    by (rule take_bit_nat_eq_self) (use unsigned_less [of v] in simp)
  ultimately have "unat (ucast (ucast v :: 8 word) :: 64 word) = unat v"
    by (simp add: unsigned_ucast_eq unsigned_take_bit_eq)
  then show ?thesis by (simp only: word_unat_eq_iff)
qed

lemma ucast_8_le: "(ucast (r :: 8 word) :: 64 word) \<le> 0xff"
proof -
  have "unat r < 2 ^ 8" using unsigned_less [of r] by simp
  moreover have "take_bit 64 (unat r) = unat r"
    by (rule take_bit_nat_eq_self) (use \<open>unat r < 2 ^ 8\<close> in simp)
  ultimately show ?thesis by (simp add: word_le_nat_alt unsigned_ucast_eq)
qed

lemma clamp_le_max: "clamp_value_for_depth v d \<le> get_max_value_for_depth d"
  by (auto simp: clamp_value_for_depth_def Let_def)

lemma clamp_id: "v \<le> get_max_value_for_depth d \<Longrightarrow> clamp_value_for_depth v d = v"
  by (auto simp: clamp_value_for_depth_def Let_def)

subsection \<open>Well-formed D8 blocks\<close>

lemma block_d8_ok_channel:
  "block_d8_ok b \<Longrightarrow> i < MAX_CHANNELS \<Longrightarrow> channel_d8_ok (get_volume b) (channel_at b i)"
  by (simp add: block_d8_ok_def list_all_length channel_at_def)

lemma block_d8_ok_set_channel:
  assumes "block_d8_ok b" and "channel_d8_ok (get_volume b) ch"
  shows "block_d8_ok (set_channel b i ch)"
proof -
  have "set ((channels b)[i := ch]) \<subseteq> insert ch (set (channels b))"
    by (rule set_update_subset_insert)
  with assms show ?thesis
    by (auto simp: block_d8_ok_def list_all_iff set_channel_def get_volume_def)
qed

lemma block_d8_ok_volume:
  assumes "block_d8_ok b" and "vb_size b = (sx, sy, sz)"
  shows "0 < sx * sy * sz" and "sx * sy * sz < 2 ^ 29" and "sx * sy * sz < 2 ^ 32"
    and "unat (get_volume b) = nat (sx * sy * sz)"
    and "get_volume b = word_of_int (sx * sy * sz)"
proof -
  from assms have p: "0 < sx" "0 < sy" "0 < sz" and v: "sx * sy * sz < 2 ^ 29"
    by (simp_all add: block_d8_ok_def)
  from p show v0: "0 < sx * sy * sz" by simp
  from v show "sx * sy * sz < 2 ^ 29" .
  from v show v32: "sx * sy * sz < 2 ^ 32" by auto
  show gv: "get_volume b = word_of_int (sx * sy * sz)"
    by (simp only: get_volume_def volume_of_def assms(2) prod.case)
  from v0 have "0 \<le> sx * sy * sz" by simp
  from unat_word_of_int_32 [OF this v32] show "unat (get_volume b) = nat (sx * sy * sz)"
    by (simp only: gv)
qed

text \<open>Materialising a D8 channel gives one byte per voxel, each the channel's value.\<close>

lemma create_channel_d8:
  assumes ok: "block_d8_ok b" and c: "c < MAX_CHANNELS" and sz: "vb_size b = (sx, sy, sz)"
  shows "create_channel pool c (vb_size b) dv b =
           Inr (set_channel b c ((channel_at b c)
                  \<lparr>size_in_bytes := get_volume b,
                   data := Some (replicate (nat (sx * sy * sz))
                                   (ucast (clamp_value_for_depth dv DEPTH_8_BIT)))\<rparr>))"
proof -
  note v = block_d8_ok_volume [OF ok sz]
  have cl: "c < length (channels b)" using ok c by (simp add: block_d8_ok_def)
  have dp: "depth (channel_at b c) = DEPTH_8_BIT"
    using block_d8_ok_channel [OF ok c] by (simp add: channel_d8_ok_def)
  have v0: "0 \<le> sx * sy * sz" using v(1) by simp
  have "get_size_in_bytes_for_volume (sx, sy, sz) DEPTH_8_BIT
          = Inr (word_of_int (sx * sy * sz))"
    using size_in_bytes_d8 [OF v0 v(2)]
    by (simp add: get_size_in_bytes_for_volume_def volume_of_def)
  then have n: "get_size_in_bytes_for_volume (sx, sy, sz) DEPTH_8_BIT = Inr (get_volume b)"
    by (simp only: v(5))
  show ?thesis
    using c cl dp
    by (simp add: create_channel_def create_channel_noinit_def sz n bind_r_def fill_def
        ignore_failure_def fill_data_def memset_def v(4) Let_def)
qed

text \<open>Reading from and writing into a materialised D8 channel.\<close>

lemma get_voxel_d8:
  assumes "block_d8_ok b" and "c < MAX_CHANNELS" and "data (channel_at b c) = Some d"
    and "validate_pos b x y z" and "vb_size b = (sx, sy, sz)"
  shows "nat (y + sy * (x + sx * z)) < length d"
    and "get_voxel b x y z c = Inr (ucast (d ! nat (y + sy * (x + sx * z))))"
proof -
  note v = block_d8_ok_volume [OF assms(1,5)]
  from block_d8_ok_channel [OF assms(1,2)] assms(3)
  have dp: "depth (channel_at b c) = DEPTH_8_BIT" and ld: "length d = unat (get_volume b)"
    by (simp_all add: channel_d8_ok_def)
  note ib = index_bounds [OF assms(4,5)]
  have ui: "unat (index b x y z) = nat (y + sy * (x + sx * z))"
    by (rule unat_index [OF assms(4,5) v(3)])
  show lt: "nat (y + sy * (x + sx * z)) < length d" using ib ld v(4) by linarith
  show "get_voxel b x y z c = Inr (ucast (d ! nat (y + sy * (x + sx * z))))"
    using assms(2,3,4) dp lt by (simp add: get_voxel_def bind_r_def load_byte_def ui)
qed

lemma write_d8:
  assumes ok: "block_d8_ok b" and c: "c < MAX_CHANNELS"
    and d: "data (channel_at b c) = Some d" and p: "validate_pos b x y z"
    and sz: "vb_size b = (sx, sy, sz)"
  shows "set_voxel pool v x y z c b =
           Inr (set_channel b c ((channel_at b c)
                  \<lparr>data := Some (d[nat (y + sy * (x + sx * z))
                                    := ucast (clamp_value_for_depth v DEPTH_8_BIT)])\<rparr>))"
proof -
  note v = block_d8_ok_volume [OF ok sz]
  from block_d8_ok_channel [OF ok c] have dp: "depth (channel_at b c) = DEPTH_8_BIT"
    by (simp add: channel_d8_ok_def)
  have ui: "unat (index b x y z) = nat (y + sy * (x + sx * z))"
    by (rule unat_index [OF p sz v(3)])
  note lt = get_voxel_d8(1) [OF ok c d p sz]
  show ?thesis
    using c p d dp lt
    by (simp add: set_voxel_def bind_r_def write_voxel_def store_byte_def ui)
qed


subsection \<open>Compression\<close>

lemma is_uniform_cong:
  "channel_at b' i = channel_at b i \<Longrightarrow> vb_size b' = vb_size b \<Longrightarrow>
   is_uniform b' i = is_uniform b i"
  by (auto simp: is_uniform_def get_volume_def Let_def split: option.splits)

lemma clear_channel_eq:
  assumes "i < MAX_CHANNELS" and "i < length (channels b)"
  shows "\<exists>ch. clear_channel i v b = Inr (set_channel b i ch) \<and> data ch = None
           \<and> defval ch = clamp_value_for_depth v (depth (channel_at b i))
           \<and> depth ch = depth (channel_at b i)"
proof (cases "data (channel_at b i)")
  case None
  with assms have "clear_channel i v b = Inr (set_channel b i ((channel_at b i)
      \<lparr>defval := clamp_value_for_depth v (depth (channel_at b i))\<rparr>))"
    by (simp add: clear_channel_def bind_r_def Let_def)
  with None show ?thesis by (intro exI [of _ "(channel_at b i)
      \<lparr>defval := clamp_value_for_depth v (depth (channel_at b i))\<rparr>"]) simp
next
  case (Some d)
  with assms have "clear_channel i v b = Inr (set_channel b i ((channel_at b i)
      \<lparr>data := None, size_in_bytes := 0,
       defval := clamp_value_for_depth v (depth (channel_at b i))\<rparr>))"
    by (simp add: clear_channel_def delete_channel_def ignore_failure_def bind_r_def Let_def)
  then show ?thesis by (intro exI [of _ "(channel_at b i)
      \<lparr>data := None, size_in_bytes := 0,
       defval := clamp_value_for_depth v (depth (channel_at b i))\<rparr>"]) simp
qed

text \<open>
  One step of the loop either leaves the block as it is (the channel is settled) or
  replaces the channel by a uniform one; the other channels and the size are untouched.
\<close>

lemma compress_channel_cases:
  assumes "i < MAX_CHANNELS" and "i < length (channels b)" and "compress_channel i b = Inr b'"
  shows "(b' = b \<and> settled b i) \<or> (\<exists>ch. b' = set_channel b i ch \<and> data ch = None)"
proof (cases "data (channel_at b i)")
  case None
  with assms show ?thesis by (simp add: compress_channel_def settled_def)
next
  case (Some d)
  show ?thesis
  proof (cases "is_uniform b i")
    case (Inl e)
    with Some assms show ?thesis by (simp add: compress_channel_def bind_r_def)
  next
    case (Inr u)
    show ?thesis
    proof (cases u)
      case False
      with Inr Some assms show ?thesis by (simp add: compress_channel_def bind_r_def settled_def)
    next
      case True
      from clear_channel_eq [OF assms(1,2)] obtain ch where
        "clear_channel i (ucast (d ! 0)) b = Inr (set_channel b i ch)" "data ch = None" by blast
      with True Inr Some assms show ?thesis
        by (auto simp: compress_channel_def bind_r_def load_byte_def ignore_failure_def
            split: if_splits)
    qed
  qed
qed

lemma compress_channel_settles:
  assumes "i < MAX_CHANNELS" and "i < length (channels b)" and "compress_channel i b = Inr b'"
  shows "settled b' i" and "length (channels b') = length (channels b)"
    and "vb_size b' = vb_size b" and "j \<noteq> i \<Longrightarrow> channel_at b' j = channel_at b j"
proof -
  from compress_channel_cases [OF assms]
  consider "b' = b" "settled b i" | ch where "b' = set_channel b i ch" "data ch = None"
    by blast
  then have "settled b' i \<and> length (channels b') = length (channels b)
      \<and> vb_size b' = vb_size b \<and> (j \<noteq> i \<longrightarrow> channel_at b' j = channel_at b j)"
  proof cases
    case 1
    then show ?thesis by simp
  next
    case 2
    then show ?thesis using assms(2) by (simp add: settled_def)
  qed
  then show "settled b' i" and "length (channels b') = length (channels b)"
    and "vb_size b' = vb_size b" and "j \<noteq> i \<Longrightarrow> channel_at b' j = channel_at b j"
    by simp_all
qed

lemma settled_fixed:
  assumes "i < MAX_CHANNELS" and "settled b i"
  shows "compress_channel i b = Inr b"
proof (cases "data (channel_at b i)")
  case None
  then show ?thesis by (simp add: compress_channel_def)
next
  case (Some d)
  with assms(2) have "is_uniform b i = Inr False" by (simp add: settled_def)
  with Some show ?thesis by (simp add: compress_channel_def bind_r_def)
qed

lemma settled_cong:
  "channel_at b' j = channel_at b j \<Longrightarrow> vb_size b' = vb_size b \<Longrightarrow> settled b' j = settled b j"
  using is_uniform_cong [of b' j b] by (simp add: settled_def)

lemma for_each_settles:
  assumes "for_each xs compress_channel b = Inr b'"
    and "list_all (\<lambda>i. i < MAX_CHANNELS \<and> i < length (channels b)) xs"
  shows "length (channels b') = length (channels b) \<and> vb_size b' = vb_size b
         \<and> (\<forall>j. j \<in> set xs \<or> settled b j \<longrightarrow> settled b' j)
         \<and> (\<forall>j. j \<notin> set xs \<longrightarrow> channel_at b' j = channel_at b j)"
  using assms
proof (induction xs arbitrary: b)
  case Nil
  then show ?case by simp
next
  case (Cons i xs)
  from Cons.prems(1) obtain b1 where b1: "compress_channel i b = Inr b1"
    and rest: "for_each xs compress_channel b1 = Inr b'"
    by (auto split: sum.splits)
  from Cons.prems(2) have i: "i < MAX_CHANNELS" "i < length (channels b)" by simp_all
  note s = compress_channel_settles [OF i b1]
  from Cons.prems(2) s(2) have "list_all (\<lambda>i. i < MAX_CHANNELS \<and> i < length (channels b1)) xs"
    by simp
  from Cons.IH [OF rest this]
  have ih: "length (channels b') = length (channels b1)" "vb_size b' = vb_size b1"
    "\<And>j. j \<in> set xs \<or> settled b1 j \<Longrightarrow> settled b' j"
    "\<And>j. j \<notin> set xs \<Longrightarrow> channel_at b' j = channel_at b1 j" by blast+
  have "settled b' j" if "j \<in> set (i # xs) \<or> settled b j" for j
  proof (cases "j = i")
    case True
    with s(1) ih(3) show ?thesis by blast
  next
    case False
    with s(3,4) have "settled b1 j = settled b j" by (intro settled_cong) auto
    with that False ih(3) show ?thesis by auto
  qed
  moreover have "channel_at b' j = channel_at b j" if "j \<notin> set (i # xs)" for j
    using that ih(4) [of j] s(4) [of j] by auto
  ultimately show ?case using ih(1,2) s(2,3) by auto
qed

lemma for_each_fixed:
  "list_all (\<lambda>i. f i s = Inr s) xs \<Longrightarrow> for_each xs f s = Inr s"
  by (induction xs) auto

text \<open>On a well-formed D8 block every step completes, and the block stays well formed.\<close>

lemma load_elem_1: "i < length d \<Longrightarrow> load_elem (Suc 0) d i = Inr (ucast (d ! i))"
  by (simp add: load_elem_def take_Suc_conv_app_nth hd_drop_conv_nth take_Suc)

lemma is_uniform_loop_1_total:
  "list_all (\<lambda>i. i < length d) is \<Longrightarrow>
   is_uniform_loop 1 d v0 is = Inr (list_all (\<lambda>i. ucast (d ! i) = v0) is)"
  by (induction "is") (auto simp: load_elem_1)

lemma is_uniform_d8:
  assumes "block_d8_ok b" and "i < MAX_CHANNELS" and "data (channel_at b i) = Some d"
  shows "is_uniform b i =
           Inr (list_all (\<lambda>k. (ucast (d ! k) :: 64 word) = ucast (d ! 0)) [1..<length d])"
    and "0 < length d"
proof -
  obtain sx sy sz where sz: "vb_size b = (sx, sy, sz)" by (cases "vb_size b") auto
  note v = block_d8_ok_volume [OF assms(1) sz]
  from block_d8_ok_channel [OF assms(1,2)] assms(3)
  have dp: "depth (channel_at b i) = DEPTH_8_BIT" and ld: "length d = unat (get_volume b)"
    by (simp_all add: channel_d8_ok_def)
  from ld v show pos: "0 < length d" by simp
  have "list_all (\<lambda>i. i < length d) [1..<length d]" by (simp add: list_all_iff)
  from is_uniform_loop_1_total [OF this] pos
  show "is_uniform b i =
           Inr (list_all (\<lambda>k. (ucast (d ! k) :: 64 word) = ucast (d ! 0)) [1..<length d])"
    using assms(2,3) dp ld
    by (simp add: is_uniform_def is_uniform_T_def bind_r_def load_elem_1)
qed

lemma compress_channel_d8:
  assumes "block_d8_ok b" and "i < MAX_CHANNELS"
  shows "\<exists>b'. compress_channel i b = Inr b' \<and> block_d8_ok b'"
proof (cases "data (channel_at b i)")
  case None
  with assms show ?thesis by (simp add: compress_channel_def)
next
  case (Some d)
  have il: "i < length (channels b)" using assms by (simp add: block_d8_ok_def)
  note u = is_uniform_d8 [OF assms Some]
  show ?thesis
  proof (cases "list_all (\<lambda>k. (ucast (d ! k) :: 64 word) = ucast (d ! 0)) [1..<length d]")
    case False
    with Some u assms show ?thesis by (simp add: compress_channel_def bind_r_def)
  next
    case True
    from clear_channel_eq [OF assms(2) il, of "ucast (d ! 0)"] obtain ch where
      ch: "clear_channel i (ucast (d ! 0)) b = Inr (set_channel b i ch)" "data ch = None"
        "defval ch = clamp_value_for_depth (ucast (d ! 0)) (depth (channel_at b i))"
        "depth ch = depth (channel_at b i)" by blast
    from block_d8_ok_channel [OF assms] ch(2,3,4)
      clamp_le_max [of "ucast (d ! 0)" DEPTH_8_BIT]
    have "channel_d8_ok (get_volume b) ch" by (simp add: channel_d8_ok_def)
    from block_d8_ok_set_channel [OF assms(1) this]
    have "block_d8_ok (set_channel b i ch)" .
    with True Some u ch(1) show ?thesis
      by (simp add: compress_channel_def bind_r_def load_byte_def ignore_failure_def)
  qed
qed

lemma for_each_compress_d8:
  "block_d8_ok b \<Longrightarrow> list_all (\<lambda>i. i < MAX_CHANNELS) xs \<Longrightarrow>
   \<exists>b'. for_each xs compress_channel b = Inr b' \<and> block_d8_ok b'"
proof (induction xs arbitrary: b)
  case Nil
  then show ?case by simp
next
  case (Cons i xs)
  from compress_channel_d8 [of b i] Cons.prems obtain b1
    where "compress_channel i b = Inr b1" "block_d8_ok b1" by auto
  with Cons.IH [of b1] Cons.prems(2) show ?case by auto
qed

lemma channel_indices_split:
  assumes "c < MAX_CHANNELS"
  shows "[0..<MAX_CHANNELS] = [0..<c] @ c # [Suc c..<MAX_CHANNELS]"
proof -
  from assms obtain k where k: "MAX_CHANNELS = c + k" "0 < k"
    by (metis less_imp_add_positive)
  have "[0..<c + k] = [0..<c] @ [c..<c + k]" by (rule upt_add_eq_append) simp
  also have "[c..<c + k] = c # [Suc c..<c + k]" using k(2) by (simp add: upt_conv_Cons)
  finally show ?thesis by (simp only: k(1))
qed





subsection \<open>Copying\<close>

lemma fresh_channels:
  "list_all (\<lambda>i. data (channel_at VoxelBuffer_new i) = None
                \<and> depth (channel_at VoxelBuffer_new i) = DEPTH_8_BIT)
     [0..<MAX_CHANNELS]"
  by code_simp

lemma fresh_length: "length (channels VoxelBuffer_new) = MAX_CHANNELS"
  by (simp add: VoxelBuffer_new_def)

lemma new_block_fresh:
  assumes "0 < sx" and "0 < sy" and "0 < sz"
  shows "new_block pool sx sy sz = Inr (VoxelBuffer_new\<lparr>vb_size := (sx, sy, sz)\<rparr>)"
proof -
  let ?body = "\<lambda>i b. let channel = channel_at b i
                     in if data channel \<noteq> None
                        then bind_r (ignore_failure b (delete_channel i b)) (\<lambda>b1.
                               create_channel pool i (sx, sy, sz) (defval channel) b1)
                        else Inr b"
  have "list_all (\<lambda>i. ?body i VoxelBuffer_new = Inr VoxelBuffer_new) [0..<MAX_CHANNELS]"
    using fresh_channels by (simp add: list_all_iff)
  then have "for_each [0..<MAX_CHANNELS] ?body VoxelBuffer_new = Inr VoxelBuffer_new"
    by (rule for_each_fixed)
  moreover have "(sx, sy, sz) \<noteq> vb_size VoxelBuffer_new"
    using assms by (simp add: VoxelBuffer_new_def)
  ultimately show ?thesis
    using assms by (simp add: new_block_def create_def bind_r_def)
qed

text \<open>
  The copy of one channel into a fresh block of the same size, and the loop over the
  channels.
\<close>

lemma copy_from_channel_d8:
  assumes okb: "block_d8_ok b" and i: "i < MAX_CHANNELS"
    and len: "length (channels d) = MAX_CHANNELS" and sz: "vb_size d = vb_size b"
    and dn: "data (channel_at d i) = None" and dd: "depth (channel_at d i) = DEPTH_8_BIT"
  shows "\<exists>ch. copy_from_channel pool b i d = Inr (set_channel d i ch)
           \<and> channel_copied (get_volume b) (channel_at b i) ch"
proof -
  obtain sx sy sz' where s: "vb_size b = (sx, sy, sz')" by (cases "vb_size b") auto
  note v = block_d8_ok_volume [OF okb s]
  note cok = block_d8_ok_channel [OF okb i]
  have il: "i < length (channels d)" using i len by simp
  have db: "depth (channel_at b i) = DEPTH_8_BIT" using cok by (simp add: channel_d8_ok_def)
  have gv: "get_volume d = get_volume b" by (simp add: get_volume_def sz)
  show ?thesis
  proof (cases "data (channel_at b i)")
    case None
    let ?ch = "(channel_at d i)\<lparr>defval := defval (channel_at b i), depth := DEPTH_8_BIT\<rparr>"
    have "copy_from_channel pool b i d = Inr (set_channel d i ?ch)"
      using i sz None dn dd db by (simp add: copy_from_channel_def bind_r_def Let_def)
    moreover have "channel_copied (get_volume b) (channel_at b i) ?ch"
      using None dn db by (simp add: channel_copied_def)
    ultimately show ?thesis by blast
  next
    case (Some src)
    with cok have ls: "length src = unat (get_volume b)" by (simp add: channel_d8_ok_def)
    have v0: "0 \<le> sx * sy * sz'" using v(1) by simp
    have "get_size_in_bytes_for_volume (sx, sy, sz') DEPTH_8_BIT
            = Inr (word_of_int (sx * sy * sz'))"
      using size_in_bytes_d8 [OF v0 v(2)]
      by (simp add: get_size_in_bytes_for_volume_def volume_of_def)
    then have n: "get_size_in_bytes_for_volume (vb_size b) DEPTH_8_BIT = Inr (get_volume b)"
      by (simp only: v(5) s)
    let ?ch = "(channel_at d i)\<lparr>size_in_bytes := get_volume b, data := Some src,
                 defval := defval (channel_at b i), depth := DEPTH_8_BIT\<rparr>"
    have "copy_from_channel pool b i d = Inr (set_channel d i ?ch)"
      using i il sz Some dn dd db ls
      by (simp add: copy_from_channel_def bind_r_def Let_def create_channel_noinit_def n
          memcpy_def gv)
    moreover have "channel_copied (get_volume b) (channel_at b i) ?ch"
      using Some db by (simp add: channel_copied_def)
    ultimately show ?thesis by blast
  qed
qed

lemma copy_loop_d8:
  assumes okb: "block_d8_ok b"
  shows "list_all (\<lambda>i. i < MAX_CHANNELS) xs \<Longrightarrow> distinct xs \<Longrightarrow>
     length (channels d) = MAX_CHANNELS \<Longrightarrow> vb_size d = vb_size b \<Longrightarrow>
     list_all (\<lambda>i. data (channel_at d i) = None \<and> depth (channel_at d i) = DEPTH_8_BIT) xs \<Longrightarrow>
     \<exists>d'. for_each xs (\<lambda>i d. ignore_failure d (copy_from_channel pool b i d)) d = Inr d'
        \<and> length (channels d') = MAX_CHANNELS \<and> vb_size d' = vb_size b
        \<and> list_all (\<lambda>i. channel_copied (get_volume b) (channel_at b i) (channel_at d' i)) xs
        \<and> (\<forall>j. j \<notin> set xs \<longrightarrow> channel_at d' j = channel_at d j)"
proof (induction xs arbitrary: d)
  case Nil
  then show ?case by simp
next
  case (Cons i xs)
  from Cons.prems have i: "i < MAX_CHANNELS" and rest: "list_all (\<lambda>i. i < MAX_CHANNELS) xs"
    and ni: "i \<notin> set xs" and dist: "distinct xs"
    and dn: "data (channel_at d i) = None" and dd: "depth (channel_at d i) = DEPTH_8_BIT"
    and fresh: "list_all (\<lambda>i. data (channel_at d i) = None
                  \<and> depth (channel_at d i) = DEPTH_8_BIT) xs"
    by simp_all
  from copy_from_channel_d8 [OF okb i Cons.prems(3,4) dn dd, of pool] obtain ch
    where ch: "copy_from_channel pool b i d = Inr (set_channel d i ch)"
      and cp: "channel_copied (get_volume b) (channel_at b i) ch" by blast
  let ?d1 = "set_channel d i ch"
  have il: "i < length (channels d)" using i Cons.prems(3) by simp
  have "\<And>j. j \<in> set xs \<Longrightarrow> j \<noteq> i" using ni by auto
  then have fresh1: "list_all (\<lambda>j. data (channel_at ?d1 j) = None
                  \<and> depth (channel_at ?d1 j) = DEPTH_8_BIT) xs"
    using fresh by (simp add: list_all_iff)
  have l1: "length (channels ?d1) = MAX_CHANNELS" using Cons.prems(3) by simp
  have s1: "vb_size ?d1 = vb_size b" using Cons.prems(4) by simp
  from Cons.IH [OF rest dist l1 s1 fresh1] obtain d'
    where d': "for_each xs (\<lambda>i d. ignore_failure d (copy_from_channel pool b i d)) ?d1 = Inr d'"
      and r: "length (channels d') = MAX_CHANNELS" "vb_size d' = vb_size b"
        "list_all (\<lambda>i. channel_copied (get_volume b) (channel_at b i) (channel_at d' i)) xs"
      and o: "\<And>j. j \<notin> set xs \<Longrightarrow> channel_at d' j = channel_at ?d1 j" by blast
  have "channel_at d' i = ch" using o [OF ni] il by simp
  with cp have ci: "channel_copied (get_volume b) (channel_at b i) (channel_at d' i)" by simp
  have oth: "channel_at d' j = channel_at d j" if "j \<notin> set (i # xs)" for j
    using that o [of j] by simp
  have "for_each (i # xs) (\<lambda>i d. ignore_failure d (copy_from_channel pool b i d)) d = Inr d'"
    using ch d' by (simp add: ignore_failure_def)
  with r ci oth show ?case by auto
qed

lemma compare_bytes_same:
  "list_all (\<lambda>i. i < length d) is \<Longrightarrow> compare_bytes d d is = Inr True"
  by (induction "is") (auto simp: load_byte_def)

lemma equals_channels_copied:
  "list_all (\<lambda>i. channel_copied volume (channel_at b i) (channel_at c i)
                \<and> channel_d8_ok volume (channel_at b i)) xs \<Longrightarrow>
   equals_channels xs c b = Inr True"
proof (induction xs)
  case Nil
  then show ?case by simp
next
  case (Cons i xs)
  then have cp: "channel_copied volume (channel_at b i) (channel_at c i)"
    and ok: "channel_d8_ok volume (channel_at b i)"
    and ih: "equals_channels xs c b = Inr True" by simp_all
  show ?case
  proof (cases "data (channel_at b i)")
    case None
    with cp ih show ?thesis by (simp add: channel_copied_def)
  next
    case (Some d)
    with ok have ld: "length d = unat volume" and sb: "size_in_bytes (channel_at b i) = volume"
      by (simp_all add: channel_d8_ok_def)
    have "list_all (\<lambda>k. k < length d) [0..<unat volume]" using ld by (simp add: list_all_iff)
    from compare_bytes_same [OF this] Some cp ih sb show ?thesis
      by (simp add: channel_copied_def)
  qed
qed

subsection \<open>Reading as a real number\<close>

lemma raw_voxel_to_real_d8:
  assumes "v \<le> 0xff"
  shows "raw_voxel_to_real m v DEPTH_8_BIT =
           (if v = 0 then Inl OUT_OF_BOUNDS else if v < 254 then Inr 0 else Inr 1)"
proof -
  define n where "n = unat v"
  let ?n = n
  let ?q = "(real n - 127) / 127"
  have n: "?n \<le> 255" using assms by (simp add: word_le_nat_alt n_def)
  have z: "(v = 0) = (?n = 0)" by (simp add: unat_eq_0 n_def)
  have l: "(v < 254) = (?n < 254)" by (simp add: word_less_nat_alt n_def)
  have r: "raw_voxel_to_real m v DEPTH_8_BIT = real_to_uint64 ?q"
    by (simp add: raw_voxel_to_real_def n_def)
  consider "?n = 0" | "0 < ?n" "?n < 127" | "127 \<le> ?n" "?n < 254" | "254 \<le> ?n"
    by linarith
  then show ?thesis
  proof cases
    case 1
    then have "?q = - 1" by simp
    with 1 show ?thesis unfolding r z by (simp add: real_to_uint64_def)
  next
    case 2
    then have q: "- 1 < ?q" "?q < 0" by (simp_all add: field_simps)
    then have "\<lceil>?q\<rceil> = 0" by (intro ceiling_unique) simp_all
    moreover have "?q < 2 ^ 64" using q(2) by (rule less_trans) simp
    ultimately show ?thesis using 2 q unfolding r z l by (simp add: real_to_uint64_def)
  next
    case 3
    then have q: "0 \<le> ?q" "?q < 1" by (simp_all add: field_simps)
    then have "\<lfloor>?q\<rfloor> = 0" by (intro floor_unique) simp_all
    moreover have "?q < 2 ^ 64" using q(2) by (rule less_trans) simp
    moreover have "- 1 < ?q" using q(1) by linarith
    ultimately show ?thesis using 3 q unfolding r z l by (simp add: real_to_uint64_def)
  next
    case 4
    with n have q: "1 \<le> ?q" "?q < 2" by (simp_all add: field_simps)
    then have "\<lfloor>?q\<rfloor> = 1" by (intro floor_unique) simp_all
    moreover have "?q < 2 ^ 64" using q(2) by (rule less_trans) simp
    moreover have "- 1 < ?q" "0 \<le> ?q" using q(1) by linarith+
    ultimately show ?thesis using 4 unfolding r z l by (simp add: real_to_uint64_def)
  qed
qed

subsection \<open>The task\<close>

lemma load_instances_requested:
  "requested_generator_task (fst (load_instances res st t e)) = requested_generator_task t"
  by (auto simp: load_instances_def split: prod.splits)

lemma load_instances_async_tasks:
  "async_tasks (snd (load_instances res st t e)) = async_tasks e"
  by (auto simp: load_instances_def log_error_def split: prod.splits)

subsection \<open>The concrete inputs\<close>

lemma block_d8_demo_built:
  "bind_r (new_block pool 1 1 2) (\<lambda>b.
   bind_r (set_voxel pool 7 0 0 0 CHANNEL_TYPE b) (\<lambda>b.
     set_voxel pool 7 0 0 1 CHANNEL_TYPE b)) = Inr block_d8_demo"
  by code_simp

lemma block_d8_demo_ok: "block_d8_ok block_d8_demo"
  by code_simp

lemma demo_facts:
  "CHANNEL_TYPE < MAX_CHANNELS" "CHANNEL_SDF < MAX_CHANNELS"
  "validate_pos block_d8_demo 0 0 1" "validate_pos block_d8_demo 0 0 0"
  "data (channel_at block_d8_demo CHANNEL_SDF) = None"
  "defval (channel_at block_d8_demo CHANNEL_SDF) = 255"
  "data (channel_at block_d8_demo CHANNEL_TYPE) = Some [7, 7]"
  "depth (channel_at block_d8_demo CHANNEL_SDF) = DEPTH_8_BIT"
  "length (channels block_d8_demo) = MAX_CHANNELS"
  "get_voxel block_d8_demo 0 0 0 CHANNEL_SDF = Inr 255"
  by code_simp+

lemma demo_compress:
  "compress_uniform_channels block_d8_demo = Inr block_d8_demo_compressed"
  by code_simp

lemma demo_channel_count:
  "length (channels block_d8_demo) = MAX_CHANNELS"
  by code_simp


section \<open>The claims\<close>

subsection \<open>Voxel block\<close>



text \<open>
  C3. The claim: \<^verbatim>\<open>duplicate()\<close> returns a block that \<^verbatim>\<open>equals\<close> its source, the full copy
  taking each materialised channel's entire buffer.

  The code on a block reduced after a channel was materialised:
  \<^verbatim>\<open>create(4,4,4); set_voxel(5, 0,0,0, TYPE); create(2,2,2)\<close>. TYPE keeps a buffer of 64
  bytes (\<^verbatim>\<open>size_in_bytes = 64\<close>) in a block of 8 voxels. \<^verbatim>\<open>duplicate()\<close> allocates 8 bytes
  for the copy and copies \<^verbatim>\<open>get_volume()\<close> = 8 bytes; \<^verbatim>\<open>equals\<close> then stops at
  \<^verbatim>\<open>CRASH_COND(channel.size_in_bytes != other_channel.size_in_bytes)\<close>, whichever of the two
  blocks it is called on. On the enlarged block of C1 \<^verbatim>\<open>duplicate()\<close> itself fails: \<^verbatim>\<open>memcpy\<close>
  reads 64 bytes from the source's buffer of 8.
\<close>

theorem duplicate_after_resize_not_equal:
  "bind_r (block_shrunk pool) (\<lambda>b.
     Inr (vb_size b, size_in_bytes (channel_at b CHANNEL_TYPE),
          map_option length (data (channel_at b CHANNEL_TYPE))))
     = Inr ((2, 2, 2), 64, Some 64)
   \<and> bind_r (block_shrunk pool) (\<lambda>b.
       bind_r (duplicate pool b) (\<lambda>c. Inr (vb_size c, channel_at c CHANNEL_TYPE)))
     = Inr ((2, 2, 2),
            \<lparr>data = Some [0, 0, 0, 0, 0, 0, 0, 0], defval = 0, depth = DEPTH_8_BIT,
             size_in_bytes = 8\<rparr>)
   \<and> bind_r (block_shrunk pool) (\<lambda>b.
       bind_r (duplicate pool b) (\<lambda>c. equals c (Some b))) = Inl CRASH
   \<and> bind_r (block_shrunk pool) (\<lambda>b.
       bind_r (duplicate pool b) (\<lambda>c. equals b (Some c))) = Inl CRASH
   \<and> bind_r (block_grown pool) (\<lambda>b. duplicate pool b) = Inl OUT_OF_BOUNDS"
  by code_simp

text \<open>
  C4. The claim: after \<^verbatim>\<open>downscale_to\<close>, every written destination position \<open>p\<close> holds
  the source voxel at \<open>src_min + 2*(p - dst_min)\<close>.

  The code reads the source at \<open>p\<close> itself. Downscaling the \<open>4\<times>2\<times>2\<close> source (5 at
  \<open>(1,0,0)\<close>, 9 at \<open>(2,0,0)\<close>) into a fresh \<open>2\<times>1\<times>1\<close> block with \<open>src_min = dst_min = 0\<close>
  and \<open>src_max = (4,2,2)\<close>: destination \<open>(1,0,0)\<close> holds 5, the source voxel at \<open>(1,0,0)\<close>,
  where the claim gives 9, the source voxel at \<open>(2,0,0)\<close>.
\<close>

theorem downscale_reads_destination_position:
  "bind_r (downscale_src pool) (\<lambda>src.
     bind_r (new_block pool 2 1 1) (\<lambda>dst.
     bind_r (downscale_to pool src dst (0, 0, 0) (4, 2, 2) (0, 0, 0)) (\<lambda>dst'.
       Inr (get_voxel dst' 1 0 0 CHANNEL_TYPE, get_voxel src 2 0 0 CHANNEL_TYPE,
            get_voxel src 1 0 0 CHANNEL_TYPE))))
   = Inr (Inr 5, Inr 9, Inr 5)"
  by code_simp

text \<open>
  C8. The claim: at an in-range position \<^verbatim>\<open>try_set_voxel(x, y, z, value, channel)\<close> does what
  \<^verbatim>\<open>set_voxel(value, x, y, z, channel)\<close> does.

  The code passes \<open>(x, y, z, value)\<close> where \<^verbatim>\<open>set_voxel\<close> expects \<open>(value, x, y, z)\<close>. On a
  fresh \<open>2\<times>2\<times>2\<close> block \<^verbatim>\<open>try_set_voxel(1, 1, 1, 7, TYPE)\<close> becomes a write of the value 1 at
  \<open>(1, 1, 7)\<close>: it fails the bounds check of \<^verbatim>\<open>set_voxel\<close>, logs an error and leaves the
  block as it was (the voxel still reads 0), while \<^verbatim>\<open>set_voxel(7, 1, 1, 1, TYPE)\<close> stores 7.
\<close>

theorem try_set_voxel_argument_order:
  "bind_r (new_block pool 2 2 2) (\<lambda>b. Inr (validate_pos b 1 1 1)) = Inr True
   \<and> bind_r (new_block pool 2 2 2) (\<lambda>b. try_set_voxel pool 1 1 1 7 CHANNEL_TYPE b)
     = Inl ERR_FAIL
   \<and> bind_r (new_block pool 2 2 2) (\<lambda>b. get_voxel b 1 1 1 CHANNEL_TYPE) = Inr 0
   \<and> bind_r (new_block pool 2 2 2) (\<lambda>b.
       bind_r (set_voxel pool 7 1 1 1 CHANNEL_TYPE b) (\<lambda>b'.
         get_voxel b' 1 1 1 CHANNEL_TYPE)) = Inr 7"
  by code_simp

text \<open>
  C9. The claim: on a D8 channel \<^verbatim>\<open>get_voxel_f\<close> returns \<open>(raw - 127) / 127\<close>.

  The code returns that quotient through the \<^verbatim>\<open>uint64_t\<close> return type of
  \<^verbatim>\<open>raw_voxel_to_real\<close>, which truncates it. On a \<open>16\<times>16\<times>16\<close> block whose SDF channel is
  uniform with \<open>defval = 190\<close>, \<^verbatim>\<open>get_voxel_f(0,0,0, SDF)\<close> is 0, not \<open>63/127\<close>; with the
  constructor's \<open>defval = 255\<close> it is 1.
\<close>

theorem get_voxel_f_truncates:
  "bind_r (new_block pool 16 16 16) (\<lambda>b.
     bind_r (clear_channel CHANNEL_SDF 190 b) (\<lambda>b.
       Inr (depth (channel_at b CHANNEL_SDF), get_voxel b 0 0 0 CHANNEL_SDF)))
     = Inr (DEPTH_8_BIT, Inr 190)
   \<and> bind_r (new_block pool 16 16 16) (\<lambda>b.
       bind_r (clear_channel CHANNEL_SDF 190 b) (\<lambda>b.
         get_voxel_f m b 0 0 0 CHANNEL_SDF)) = Inr 0
   \<and> ((190 - 127) / 127 :: real) \<noteq> 0
   \<and> bind_r (new_block pool 16 16 16) (\<lambda>b. get_voxel_f m b 0 0 0 CHANNEL_SDF) = Inr 1"
  by code_simp




subsection \<open>Load-block task\<close>

text \<open>
  C5. \<^verbatim>\<open>apply_result\<close> invokes the volume's callback exactly once if and only if the
  volume is registered, the dependency's flag is set and the task has not delegated to a
  generator task; the bundle then carries the task's voxels, instances, position and lod,
  \<open>dropped = \<not> has_run\<close>, \<open>initial_load = false\<close> and \<open>type = LOADED\<close>. Otherwise no
  callback is invoked. The hypothesis is the registry's invariant that a registered
  volume has a callback, which the method asserts before the call.
\<close>

theorem apply_result_emits_once_iff:
  assumes "volume_callback_set e (volume_id t)"
  shows
    "callback_calls (snd (apply_result t e)) =
       callback_calls e @
         (case volumes e (volume_id t) of
            None \<Rightarrow> []
          | Some cbs \<Rightarrow>
              if dependency_valid t \<and> \<not> requested_generator_task t
              then [(cbs, \<lparr>o_voxels = voxels t, o_instances = instances t,
                           o_position = position t, o_lod_index = lod_index t,
                           o_dropped = (\<not> has_run t), o_max_lod_hint = max_lod_hint t,
                           o_initial_load = False, o_type = TYPE_LOADED\<rparr>)]
              else [])
     \<and> (length (callback_calls (snd (apply_result t e))) = Suc (length (callback_calls e)))
         = (is_volume_valid e (volume_id t) \<and> dependency_valid t
            \<and> \<not> requested_generator_task t)
     \<and> (callback_calls (snd (apply_result t e)) = callback_calls e)
         = (\<not> (is_volume_valid e (volume_id t) \<and> dependency_valid t
               \<and> \<not> requested_generator_task t))"
  using apply_result_calls [OF assms]
  by (auto simp: is_volume_valid_def split: option.splits)

text \<open>
  The spec's scenario 5 as an instance: the stream finds the block and the instances, the
  task runs, and \<^verbatim>\<open>apply_result\<close> invokes the callback of volume 7 once, with
  \<open>dropped = false\<close>, \<open>type = LOADED\<close> and the loaded block.
\<close>

theorem apply_result_emits_once_iff_witness:
  "volume_callback_set demo_engine 7
   \<and> callback_calls
       (snd (apply_result
          (fst (run unat (demo_task (demo_stream RESULT_BLOCK_FOUND RESULT_BLOCK_FOUND) None False)
                  demo_engine))
          demo_engine))
     = [(demo_callbacks,
         \<lparr>o_voxels = Some 16, o_instances = Some 42, o_position = (1, 2, 3), o_lod_index = 0,
          o_dropped = False, o_max_lod_hint = 0, o_initial_load = False,
          o_type = TYPE_LOADED\<rparr>)]"
proof -
  let ?t = "fst (run unat (demo_task (demo_stream RESULT_BLOCK_FOUND RESULT_BLOCK_FOUND) None False)
                   demo_engine)"
  have t: "?t = (demo_task (demo_stream RESULT_BLOCK_FOUND RESULT_BLOCK_FOUND) None False)
                  \<lparr>voxels := Some 16, instances := Some 42, has_run := True\<rparr>"
    by (simp add: run_def demo_task_def demo_stream_def dispatch_voxel_result_def
        load_instances_def)
  have h: "volume_callback_set demo_engine (volume_id ?t)"
    by (simp add: t volume_callback_set_def demo_engine_def demo_callbacks_def demo_task_def)
  show ?thesis
    using apply_result_emits_once_iff [OF h] h unfolding t
    by (simp add: demo_task_def demo_engine_def dependency_valid_def)
qed

text \<open>
  C6. The claim: on \<^verbatim>\<open>BLOCK_NOT_FOUND\<close> with no generator, or with \<^verbatim>\<open>generate_cache_data\<close>
  false, the block is dropped. With \<^verbatim>\<open>generate_cache_data\<close> true and no generator the
  source takes the empty \<^verbatim>\<open>else\<close> branch and keeps the block: the task below ends with
  its block, and \<^verbatim>\<open>apply_result\<close> hands it to the volume.
\<close>

theorem miss_without_generator_keeps_block:
  "generator (the (stream_dependency
       (demo_task (demo_stream RESULT_BLOCK_NOT_FOUND RESULT_BLOCK_NOT_FOUND) None True))) = None
   \<and> voxels (fst (run unat
        (demo_task (demo_stream RESULT_BLOCK_NOT_FOUND RESULT_BLOCK_NOT_FOUND) None True)
        demo_engine)) = Some 16
   \<and> map (\<lambda>c. o_voxels (snd c))
       (callback_calls (snd (apply_result
          (fst (run unat
             (demo_task (demo_stream RESULT_BLOCK_NOT_FOUND RESULT_BLOCK_NOT_FOUND) None True)
             demo_engine))
          demo_engine))) = [Some 16]"
  by (simp add: run_def demo_task_def demo_stream_def dispatch_voxel_result_def
      load_instances_def apply_result_def is_volume_valid_def demo_engine_def
      demo_callbacks_def)

text \<open>
  C6 as amended. When \<^verbatim>\<open>run\<close> passes its checks and the stream answers
  \<^verbatim>\<open>BLOCK_NOT_FOUND\<close>: if \<^verbatim>\<open>generate_cache_data\<close> is false the block is dropped (the
  task's voxels become null) and whatever \<^verbatim>\<open>apply_result\<close> emits afterwards carries no
  voxels; if \<^verbatim>\<open>generate_cache_data\<close> is true and there is no generator, the task keeps
  the block the stream was given.
\<close>

theorem miss_drops_block_without_cache:
  assumes "stream_dependency t = Some dep" and "stream dep = Some st" and "voxels t = None"
    and "load_voxel_block st (mk (block_size t)) (origin_in_voxels t) (lod_index t)
           = (vox, RESULT_BLOCK_NOT_FOUND)"
  shows
    "(\<not> generate_cache_data t \<longrightarrow>
        voxels (fst (run mk t e)) = None
        \<and> list_all (\<lambda>c. o_voxels (snd c) = None)
            (drop (length (callback_calls e2))
               (callback_calls (snd (apply_result (fst (run mk t e)) e2)))))
     \<and> (generate_cache_data t \<and> generator dep = None \<longrightarrow>
          voxels (fst (run mk t e)) = Some vox)"
proof (intro conjI impI)
  assume nc: "\<not> generate_cache_data t"
  with assms show v: "voxels (fst (run mk t e)) = None"
    by (simp add: run_def dispatch_voxel_result_def load_instances_voxels)
  show "list_all (\<lambda>c. o_voxels (snd c) = None)
          (drop (length (callback_calls e2))
             (callback_calls (snd (apply_result (fst (run mk t e)) e2))))"
    using apply_result_voxels [of "fst (run mk t e)" e2] by (simp add: v)
next
  assume "generate_cache_data t \<and> generator dep = None"
  with assms show "voxels (fst (run mk t e)) = Some vox"
    by (simp add: run_def dispatch_voxel_result_def load_instances_voxels)
qed

theorem miss_drops_block_without_cache_witness:
  "voxels (demo_task (demo_stream RESULT_BLOCK_NOT_FOUND RESULT_BLOCK_NOT_FOUND) None False) = None
   \<and> generate_cache_data
       (demo_task (demo_stream RESULT_BLOCK_NOT_FOUND RESULT_BLOCK_NOT_FOUND) None False) = False
   \<and> voxels (fst (run unat
        (demo_task (demo_stream RESULT_BLOCK_NOT_FOUND RESULT_BLOCK_NOT_FOUND) None False)
        demo_engine)) = None
   \<and> callback_calls (snd (apply_result
        (fst (run unat
           (demo_task (demo_stream RESULT_BLOCK_NOT_FOUND RESULT_BLOCK_NOT_FOUND) None False)
           demo_engine))
        demo_engine))
     = [(demo_callbacks,
         \<lparr>o_voxels = None, o_instances = None, o_position = (1, 2, 3), o_lod_index = 0,
          o_dropped = False, o_max_lod_hint = 0, o_initial_load = False,
          o_type = TYPE_LOADED\<rparr>)]
   \<and> voxels (fst (run unat
        (demo_task (demo_stream RESULT_BLOCK_NOT_FOUND RESULT_BLOCK_NOT_FOUND) None True)
        demo_engine)) = Some 16"
proof -
  let ?st = "demo_stream RESULT_BLOCK_NOT_FOUND RESULT_BLOCK_NOT_FOUND"
  let ?dep = "\<lparr>stream = Some ?st, generator = None, valid = True\<rparr>"
  have a: "voxels (fst (run unat (demo_task ?st None False) demo_engine)) = None"
    using miss_drops_block_without_cache
      [of "demo_task ?st None False" ?dep ?st unat 16 demo_engine demo_engine]
    by (simp add: demo_task_def demo_stream_def)
  have b: "voxels (fst (run unat (demo_task ?st None True) demo_engine)) = Some 16"
    using miss_drops_block_without_cache
      [of "demo_task ?st None True" ?dep ?st unat 16 demo_engine demo_engine]
    by (simp add: demo_task_def demo_stream_def)
  have c: "callback_calls (snd (apply_result
        (fst (run unat (demo_task ?st None False) demo_engine)) demo_engine))
     = [(demo_callbacks,
         \<lparr>o_voxels = None, o_instances = None, o_position = (1, 2, 3), o_lod_index = 0,
          o_dropped = False, o_max_lod_hint = 0, o_initial_load = False,
          o_type = TYPE_LOADED\<rparr>)]"
    by (simp add: run_def demo_task_def demo_stream_def dispatch_voxel_result_def
        load_instances_def apply_result_def is_volume_valid_def demo_engine_def
        demo_callbacks_def)
  show ?thesis using a b c by (simp add: demo_task_def)
qed

text \<open>
  C7. The claim: when the instance query succeeds its payload is moved into the task's
  \<open>instances\<close>.

  The code moves the payload when the result of the voxel query is \<^verbatim>\<open>BLOCK_FOUND\<close>. With
  instances requested and supported, the voxel query answering \<^verbatim>\<open>BLOCK_NOT_FOUND\<close> and the
  instance query answering \<^verbatim>\<open>BLOCK_FOUND\<close> with payload 42, the task finishes (\<open>has_run\<close>,
  nothing logged) with \<open>instances\<close> null.
\<close>

theorem instances_follow_voxel_result:
  "load_instance_blocks (demo_stream RESULT_BLOCK_NOT_FOUND RESULT_BLOCK_FOUND) 0 (1, 2, 3)
     = (Some 42, RESULT_BLOCK_FOUND)
   \<and> instances (fst (run unat
        (demo_task (demo_stream RESULT_BLOCK_NOT_FOUND RESULT_BLOCK_FOUND) None False)
        demo_engine)) = None
   \<and> has_run (fst (run unat
        (demo_task (demo_stream RESULT_BLOCK_NOT_FOUND RESULT_BLOCK_FOUND) None False)
        demo_engine))
   \<and> error_log (snd (run unat
        (demo_task (demo_stream RESULT_BLOCK_NOT_FOUND RESULT_BLOCK_FOUND) None False)
        demo_engine)) = []"
  by (simp add: run_def demo_task_def demo_stream_def demo_engine_def
      dispatch_voxel_result_def load_instances_def)

section \<open>Further properties\<close>

subsection \<open>Well-formed blocks of the default depth\<close>

text \<open>
  The round trip of a voxel on blocks of the default depth. On a well-formed block whose
  channels have depth D8, for every channel \<open>c < 8\<close>,
  every in-range position and every value \<open>v\<close>: \<^verbatim>\<open>set_voxel(v, p, c)\<close> succeeds, keeps the
  block well formed, and \<^verbatim>\<open>get_voxel(p, c)\<close> then returns \<open>clamp(v, D8)\<close>; when the channel
  was uniform before the call, every other in-range position still reads its \<open>defval\<close>.
\<close>

theorem set_then_get_depth_8_bit:
  assumes ok: "block_d8_ok b" and c: "c < MAX_CHANNELS" and p: "validate_pos b x y z"
  shows "\<exists>b'. set_voxel pool v x y z c b = Inr b'
           \<and> block_d8_ok b'
           \<and> get_voxel b' x y z c = Inr (clamp_value_for_depth v DEPTH_8_BIT)
           \<and> (data (channel_at b c) = None \<and> validate_pos b x' y' z'
                \<and> (x', y', z') \<noteq> (x, y, z)
              \<longrightarrow> get_voxel b' x' y' z' c = Inr (defval (channel_at b c)))"
proof -
  obtain sx sy sz where sz: "vb_size b = (sx, sy, sz)" by (cases "vb_size b") auto
  let ?v = "clamp_value_for_depth v DEPTH_8_BIT"
  let ?i = "nat (y + sy * (x + sx * z))"
  note vl = block_d8_ok_volume [OF ok sz]
  note cok = block_d8_ok_channel [OF ok c]
  have cl: "c < length (channels b)" using ok c by (simp add: block_d8_ok_def)
  have dp: "depth (channel_at b c) = DEPTH_8_BIT" and dv: "defval (channel_at b c) \<le> 0xff"
    using cok by (simp_all add: channel_d8_ok_def)
  have vmax: "?v \<le> 0xff" using clamp_le_max [of v DEPTH_8_BIT] by simp
  note ib = index_bounds [OF p sz]
  have i_lt: "?i < nat (sx * sy * sz)" using ib by linarith
  show ?thesis
  proof (cases "data (channel_at b c)")
    case (Some d)
    let ?ch = "(channel_at b c)\<lparr>data := Some (d[?i := ucast ?v])\<rparr>"
    let ?b' = "set_channel b c ?ch"
    have s: "set_voxel pool v x y z c b = Inr ?b'" by (rule write_d8 [OF ok c Some p sz])
    have "channel_d8_ok (get_volume b) ?ch" using cok Some by (simp add: channel_d8_ok_def)
    from block_d8_ok_set_channel [OF ok this] have ok': "block_d8_ok ?b'" .
    have d': "data (channel_at ?b' c) = Some (d[?i := ucast ?v])" using cl by simp
    have p': "validate_pos ?b' x y z" using p by simp
    have sz': "vb_size ?b' = (sx, sy, sz)" using sz by simp
    from get_voxel_d8 [OF ok' c d' p' sz'] ucast_64_8_64 [OF vmax]
    have g: "get_voxel ?b' x y z c = Inr ?v" by simp
    from s ok' g Some show ?thesis by simp
  next
    case None
    show ?thesis
    proof (cases "defval (channel_at b c) = ?v")
      case True
      with None c p dp have "set_voxel pool v x y z c b = Inr b"
        by (simp add: set_voxel_def bind_r_def)
      moreover have "get_voxel b x y z c = Inr ?v"
        using None c True by (simp add: get_voxel_def)
      moreover have "get_voxel b x' y' z' c = Inr (defval (channel_at b c))"
        using None c by (simp add: get_voxel_def)
      ultimately show ?thesis using ok by simp
    next
      case False
      let ?dv = "defval (channel_at b c)"
      let ?d = "replicate (nat (sx * sy * sz)) (ucast ?dv :: 8 word)"
      let ?ch1 = "(channel_at b c)\<lparr>size_in_bytes := get_volume b, data := Some ?d\<rparr>"
      let ?b1 = "set_channel b c ?ch1"
      have cc: "create_channel pool c (vb_size b) ?dv b = Inr ?b1"
        using create_channel_d8 [OF ok c sz, of pool ?dv] clamp_id [of ?dv DEPTH_8_BIT] dv
        by simp
      have "channel_d8_ok (get_volume b) ?ch1"
        using cok vl(4) by (simp add: channel_d8_ok_def)
      from block_d8_ok_set_channel [OF ok this] have ok1: "block_d8_ok ?b1" .
      have d1: "data (channel_at ?b1 c) = Some ?d" using cl by simp
      have p1: "validate_pos ?b1 x y z" using p by simp
      have sz1: "vb_size ?b1 = (sx, sy, sz)" using sz by simp
      let ?ch = "?ch1\<lparr>data := Some (?d[?i := ucast ?v])\<rparr>"
      let ?b' = "set_channel b c ?ch"
      have w: "set_voxel pool v x y z c ?b1 = Inr ?b'"
        using write_d8 [OF ok1 c d1 p1 sz1, of pool v] cl by simp
      have s: "set_voxel pool v x y z c b = Inr ?b'"
      proof -
        have "set_voxel pool v x y z c b =
                bind_r (Inr (?b1, True)) (\<lambda>(b1, do_set).
                  if do_set
                  then (let channel = channel_at b1 c
                        in case data channel of
                             None \<Rightarrow> Inl OUT_OF_BOUNDS
                           | Some d \<Rightarrow>
                               bind_r (write_voxel (depth channel) d (index b1 x y z) ?v) (\<lambda>d'.
                                 Inr (set_channel b1 c (channel\<lparr>data := Some d'\<rparr>))))
                  else Inr b1)"
          using c p None False dp by (simp add: set_voxel_def cc bind_r_def)
        also have "\<dots> = set_voxel pool v x y z c ?b1"
          using c p1 d1 dp cl by (simp add: set_voxel_def bind_r_def)
        finally show ?thesis using w by simp
      qed
      have "channel_d8_ok (get_volume b) ?ch"
        using cok vl(4) by (simp add: channel_d8_ok_def)
      from block_d8_ok_set_channel [OF ok this] have ok': "block_d8_ok ?b'" .
      have d': "data (channel_at ?b' c) = Some (?d[?i := ucast ?v])" using cl by simp
      have sz': "vb_size ?b' = (sx, sy, sz)" using sz by simp
      have p': "validate_pos ?b' x y z" using p by simp
      from get_voxel_d8 [OF ok' c d' p' sz'] ucast_64_8_64 [OF vmax] i_lt
      have g: "get_voxel ?b' x y z c = Inr ?v" by simp
      have f: "get_voxel ?b' x' y' z' c = Inr ?dv"
        if q: "validate_pos b x' y' z'" and ne: "(x', y', z') \<noteq> (x, y, z)"
      proof -
        let ?j = "nat (y' + sy * (x' + sx * z'))"
        note jb = index_bounds [OF q sz]
        have j_lt: "?j < nat (sx * sy * sz)" using jb by linarith
        have "?j \<noteq> ?i"
        proof
          assume "?j = ?i"
          with ib jb have "y' + sy * (x' + sx * z') = y + sy * (x + sx * z)" by linarith
          from index_inj [OF q p sz this] ne show False by simp
        qed
        moreover have q': "validate_pos ?b' x' y' z'" using q by simp
        ultimately show ?thesis
          using get_voxel_d8(2) [OF ok' c d' q' sz'] ucast_64_8_64 [OF dv] j_lt by simp
      qed
      from s ok' g f show ?thesis by auto
    qed
  qed
qed

theorem set_then_get_depth_8_bit_witness:
  "block_d8_ok block_d8_demo \<and> CHANNEL_SDF < MAX_CHANNELS \<and> validate_pos block_d8_demo 0 0 1
   \<and> (\<exists>b'. set_voxel (\<lambda>n k. 0) 9 0 0 1 CHANNEL_SDF block_d8_demo = Inr b'
          \<and> get_voxel b' 0 0 1 CHANNEL_SDF = Inr 9
          \<and> get_voxel b' 0 0 0 CHANNEL_SDF = Inr 255)"
proof -
  have "clamp_value_for_depth 9 DEPTH_8_BIT = 9" by code_simp
  with set_then_get_depth_8_bit
    [OF block_d8_demo_ok demo_facts(2) demo_facts(3), of "\<lambda>n k. 0" 9 0 0 0]
  have "\<exists>b'. set_voxel (\<lambda>n k. 0) 9 0 0 1 CHANNEL_SDF block_d8_demo = Inr b'
          \<and> get_voxel b' 0 0 1 CHANNEL_SDF = Inr 9
          \<and> get_voxel b' 0 0 0 CHANNEL_SDF = Inr 255"
    using demo_facts(4,5,6) by auto
  with block_d8_demo_ok demo_facts(2,3) show ?thesis by simp
qed

text \<open>
  \<^verbatim>\<open>compress_uniform_channels\<close> is idempotent: on a block with its eight channels, if
  it returns a block then running it on that block returns the same block.
\<close>

theorem compress_uniform_channels_idempotent:
  assumes "length (channels b) = MAX_CHANNELS" and "compress_uniform_channels b = Inr b'"
  shows "compress_uniform_channels b' = Inr b'"
proof -
  have "list_all (\<lambda>i. i < MAX_CHANNELS \<and> i < length (channels b)) [0..<MAX_CHANNELS]"
    using assms(1) by (simp add: list_all_iff)
  from for_each_settles [OF assms(2) [unfolded compress_uniform_channels_def] this]
  have "\<And>j. j < MAX_CHANNELS \<Longrightarrow> settled b' j" by auto
  then have "list_all (\<lambda>i. compress_channel i b' = Inr b') [0..<MAX_CHANNELS]"
    by (simp add: list_all_iff settled_fixed)
  then show ?thesis unfolding compress_uniform_channels_def by (rule for_each_fixed)
qed

theorem compress_uniform_channels_idempotent_witness:
  "length (channels block_d8_demo) = MAX_CHANNELS
   \<and> compress_uniform_channels block_d8_demo = Inr block_d8_demo_compressed
   \<and> compress_uniform_channels block_d8_demo_compressed = Inr block_d8_demo_compressed"
  using compress_uniform_channels_idempotent [OF demo_channel_count demo_compress]
    demo_channel_count demo_compress by simp

text \<open>
  Compression on blocks of the default depth. On a well-formed D8 block, a materialised channel all of whose bytes are \<open>r\<close> is made
  uniform by \<^verbatim>\<open>compress_uniform_channels\<close> (\<open>data = none\<close>) with \<open>defval = r\<close>, the block
  stays well formed, and every in-range \<^verbatim>\<open>get_voxel\<close> of the channel reads \<open>r\<close> before and
  after.
\<close>

theorem compress_depth_8_bit:
  assumes ok: "block_d8_ok b" and c: "c < MAX_CHANNELS"
    and d: "data (channel_at b c) = Some d" and eq: "list_all (\<lambda>x. x = r) d"
  shows "\<exists>b'. compress_uniform_channels b = Inr b'
           \<and> block_d8_ok b'
           \<and> data (channel_at b' c) = None
           \<and> defval (channel_at b' c) = ucast r
           \<and> (validate_pos b x y z \<longrightarrow>
                get_voxel b x y z c = Inr (ucast r) \<and> get_voxel b' x y z c = Inr (ucast r))"
proof -
  have len: "length (channels b) = MAX_CHANNELS" using ok by (simp add: block_d8_ok_def)
  note split = channel_indices_split [OF c]
  \<comment> \<open>the channels before \<open>c\<close>\<close>
  have pre: "list_all (\<lambda>i. i < MAX_CHANNELS) [0..<c]" using c by (simp add: list_all_iff)
  from for_each_compress_d8 [OF ok pre] obtain b1
    where b1: "for_each [0..<c] compress_channel b = Inr b1" and ok1: "block_d8_ok b1" by blast
  have "list_all (\<lambda>i. i < MAX_CHANNELS \<and> i < length (channels b)) [0..<c]"
    using c len by (simp add: list_all_iff)
  note fs1 = for_each_settles [OF b1 this]
  from fs1 have len1: "length (channels b1) = MAX_CHANNELS" using len by simp
  from fs1 have "c \<notin> set [0..<c] \<longrightarrow> channel_at b1 c = channel_at b c" by blast
  then have same1: "channel_at b1 c = channel_at b c" by simp
  \<comment> \<open>channel \<open>c\<close> itself\<close>
  have d1: "data (channel_at b1 c) = Some d" using same1 d by simp
  note u = is_uniform_d8 [OF ok1 c d1]
  from eq have all_r: "\<And>k. k < length d \<Longrightarrow> d ! k = r" by (simp add: list_all_length)
  then have "list_all (\<lambda>k. (ucast (d ! k) :: 64 word) = ucast (d ! 0)) [1..<length d]"
    using u(2) by (simp add: list_all_iff)
  with u(1) have uni: "is_uniform b1 c = Inr True" by simp
  have cl1: "c < length (channels b1)" using c len1 by simp
  from clear_channel_eq [OF c cl1, of "ucast (d ! 0)"] obtain ch where
    ch: "clear_channel c (ucast (d ! 0)) b1 = Inr (set_channel b1 c ch)" "data ch = None"
      "defval ch = clamp_value_for_depth (ucast (d ! 0)) (depth (channel_at b1 c))"
      "depth ch = depth (channel_at b1 c)" by blast
  from block_d8_ok_channel [OF ok1 c] have dp1: "depth (channel_at b1 c) = DEPTH_8_BIT"
    by (simp add: channel_d8_ok_def)
  have dv: "defval ch = ucast r"
    using ch(3) dp1 all_r [OF u(2)] clamp_id [of "ucast r" DEPTH_8_BIT] ucast_8_le [of r]
    by simp
  let ?b2 = "set_channel b1 c ch"
  have step: "compress_channel c b1 = Inr ?b2"
    using d1 uni u(2) ch(1)
    by (simp add: compress_channel_def bind_r_def load_byte_def ignore_failure_def)
  have "channel_d8_ok (get_volume b1) ch"
    using ch(2,4) dp1 dv ucast_8_le [of r] by (simp add: channel_d8_ok_def)
  from block_d8_ok_set_channel [OF ok1 this] have ok2: "block_d8_ok ?b2" .
  \<comment> \<open>the channels after \<open>c\<close>\<close>
  have post: "list_all (\<lambda>i. i < MAX_CHANNELS) [Suc c..<MAX_CHANNELS]"
    by (simp add: list_all_iff)
  from for_each_compress_d8 [OF ok2 post] obtain b'
    where b': "for_each [Suc c..<MAX_CHANNELS] compress_channel ?b2 = Inr b'"
      and ok': "block_d8_ok b'" by blast
  have "list_all (\<lambda>i. i < MAX_CHANNELS \<and> i < length (channels ?b2)) [Suc c..<MAX_CHANNELS]"
    using len1 by (simp add: list_all_iff)
  note fs2 = for_each_settles [OF b' this]
  from fs2 have "c \<notin> set [Suc c..<MAX_CHANNELS] \<longrightarrow> channel_at b' c = channel_at ?b2 c"
    by blast
  then have same2: "channel_at b' c = channel_at ?b2 c" by simp
  then have res: "channel_at b' c = ch" using cl1 by simp
  have all: "compress_uniform_channels b = Inr b'"
    unfolding compress_uniform_channels_def split
    by (simp add: for_each_append bind_r_def b1 step b')
  have rd: "get_voxel b x y z c = Inr (ucast r)" if p: "validate_pos b x y z"
  proof -
    obtain sx sy sz where sz: "vb_size b = (sx, sy, sz)" by (cases "vb_size b") auto
    from get_voxel_d8 [OF ok c d p sz] all_r show ?thesis by simp
  qed
  have rd': "get_voxel b' x y z c = Inr (ucast r)"
    using c res ch(2) dv by (simp add: get_voxel_def)
  have "compress_uniform_channels b = Inr b'
           \<and> block_d8_ok b'
           \<and> data (channel_at b' c) = None
           \<and> defval (channel_at b' c) = ucast r
           \<and> (validate_pos b x y z \<longrightarrow>
                get_voxel b x y z c = Inr (ucast r) \<and> get_voxel b' x y z c = Inr (ucast r))"
    using all ok' res ch(2) dv rd rd' by simp
  then show ?thesis ..
qed

theorem compress_depth_8_bit_witness:
  "block_d8_ok block_d8_demo \<and> CHANNEL_TYPE < MAX_CHANNELS
   \<and> data (channel_at block_d8_demo CHANNEL_TYPE) = Some [7, 7]
   \<and> (\<exists>b'. compress_uniform_channels block_d8_demo = Inr b'
          \<and> data (channel_at b' CHANNEL_TYPE) = None
          \<and> defval (channel_at b' CHANNEL_TYPE) = 7
          \<and> get_voxel block_d8_demo 0 0 1 CHANNEL_TYPE = Inr 7
          \<and> get_voxel b' 0 0 1 CHANNEL_TYPE = Inr 7)"
proof -
  have "list_all (\<lambda>x. x = 7) [7, 7 :: 8 word]" by simp
  from compress_depth_8_bit [OF block_d8_demo_ok demo_facts(1) demo_facts(7) this, of 0 0 1]
    demo_facts(3)
  have "\<exists>b'. compress_uniform_channels block_d8_demo = Inr b'
          \<and> data (channel_at b' CHANNEL_TYPE) = None
          \<and> defval (channel_at b' CHANNEL_TYPE) = 7
          \<and> get_voxel block_d8_demo 0 0 1 CHANNEL_TYPE = Inr 7
          \<and> get_voxel b' 0 0 1 CHANNEL_TYPE = Inr 7"
    by auto
  with block_d8_demo_ok demo_facts(1,7) show ?thesis by simp
qed

text \<open>
  On a well-formed D8 block \<^verbatim>\<open>duplicate()\<close> succeeds and returns a block for which
  \<^verbatim>\<open>equals\<close> is true and whose voxels read as the source's do.
\<close>

theorem duplicate_equals_depth_8_bit:
  assumes ok: "block_d8_ok b"
  shows "\<exists>c. duplicate pool b = Inr c \<and> equals c (Some b) = Inr True
           \<and> (i < MAX_CHANNELS \<longrightarrow> get_voxel c x y z i = get_voxel b x y z i)"
proof -
  obtain sx sy sz where s: "vb_size b = (sx, sy, sz)" by (cases "vb_size b") auto
  from ok s have pos: "0 < sx" "0 < sy" "0 < sz" by (simp_all add: block_d8_ok_def)
  let ?f = "VoxelBuffer_new\<lparr>vb_size := (sx, sy, sz)\<rparr>"
  have nb: "new_block pool sx sy sz = Inr ?f" by (rule new_block_fresh [OF pos])
  have all8: "list_all (\<lambda>i. i < MAX_CHANNELS) [0..<MAX_CHANNELS]" by (simp add: list_all_iff)
  have fl: "length (channels ?f) = MAX_CHANNELS" using fresh_length by simp
  have fs: "vb_size ?f = vb_size b" using s by simp
  have ff: "list_all (\<lambda>i. data (channel_at ?f i) = None
               \<and> depth (channel_at ?f i) = DEPTH_8_BIT) [0..<MAX_CHANNELS]"
    using fresh_channels by (simp add: channel_at_def)
  from copy_loop_d8 [OF ok all8 _ fl fs ff, of pool] obtain c
    where c: "for_each [0..<MAX_CHANNELS]
                (\<lambda>i d. ignore_failure d (copy_from_channel pool b i d)) ?f = Inr c"
      and cs: "vb_size c = vb_size b"
      and cc: "list_all (\<lambda>i. channel_copied (get_volume b) (channel_at b i) (channel_at c i))
                 [0..<MAX_CHANNELS]"
    by auto
  have dup: "duplicate pool b = Inr c"
    by (simp add: duplicate_def s nb bind_r_def copy_from_def c)
  have "list_all (\<lambda>i. channel_copied (get_volume b) (channel_at b i) (channel_at c i)
                     \<and> channel_d8_ok (get_volume b) (channel_at b i)) [0..<MAX_CHANNELS]"
    using cc block_d8_ok_channel [OF ok] by (simp add: list_all_iff)
  from equals_channels_copied [OF this] have eq: "equals c (Some b) = Inr True"
    by (simp add: equals_def cs)
  have g: "get_voxel c x y z i = get_voxel b x y z i" if i: "i < MAX_CHANNELS"
  proof -
    from cc i have "channel_copied (get_volume b) (channel_at b i) (channel_at c i)"
      by (simp add: list_all_iff)
    then have "data (channel_at c i) = data (channel_at b i)"
      "defval (channel_at c i) = defval (channel_at b i)"
      "depth (channel_at c i) = depth (channel_at b i)"
      by (simp_all add: channel_copied_def)
    moreover have "depth (channel_at b i) = DEPTH_8_BIT"
      using block_d8_ok_channel [OF ok i] by (simp add: channel_d8_ok_def)
    moreover have "validate_pos c x y z = validate_pos b x y z"
      by (simp add: validate_pos_def cs)
    moreover have "index c x y z = index b x y z" by (simp add: index_def cs)
    ultimately show ?thesis
      by (cases "data (channel_at b i)") (simp_all add: get_voxel_def Let_def)
  qed
  have "duplicate pool b = Inr c \<and> equals c (Some b) = Inr True
           \<and> (i < MAX_CHANNELS \<longrightarrow> get_voxel c x y z i = get_voxel b x y z i)"
    using dup eq g by simp
  then show ?thesis ..
qed

theorem duplicate_equals_depth_8_bit_witness:
  "block_d8_ok block_d8_demo
   \<and> (\<exists>c. duplicate (\<lambda>n k. 0) block_d8_demo = Inr c
         \<and> equals c (Some block_d8_demo) = Inr True)"
  using duplicate_equals_depth_8_bit [OF block_d8_demo_ok, of "\<lambda>n k. 0" 0 0 0 0]
    block_d8_demo_ok by auto

text \<open>
  On a D8 channel \<^verbatim>\<open>get_voxel_f\<close> returns 0 for the raw values 1 to 253 and 1 for 254
  and 255; for the raw value 0 the conversion of \<open>-1.0\<close> to \<^verbatim>\<open>uint64_t\<close> is undefined.
\<close>

theorem get_voxel_f_depth_8_bit:
  assumes "c < MAX_CHANNELS" and "depth (channel_at b c) = DEPTH_8_BIT"
    and "get_voxel b x y z c = Inr raw" and "raw \<le> 0xff"
  shows "get_voxel_f m b x y z c =
           (if raw = 0 then Inl OUT_OF_BOUNDS else Inr (if raw < 254 then 0 else 1))"
  using assms raw_voxel_to_real_d8 [OF assms(4), of m]
  by (simp add: get_voxel_f_def bind_r_def)

theorem get_voxel_f_depth_8_bit_witness:
  "CHANNEL_SDF < MAX_CHANNELS \<and> depth (channel_at block_d8_demo CHANNEL_SDF) = DEPTH_8_BIT
   \<and> get_voxel block_d8_demo 0 0 0 CHANNEL_SDF = Inr 255
   \<and> get_voxel_f \<lparr>float_bits_to_uint64 = (\<lambda>i. Inr 0), uint64_to_double_bits = (\<lambda>v. 0)\<rparr>
        block_d8_demo 0 0 0 CHANNEL_SDF = Inr 1"
proof -
  have "(255 :: 64 word) \<le> 0xff" by simp
  from get_voxel_f_depth_8_bit [OF demo_facts(2) demo_facts(8) demo_facts(10) this,
      of "\<lparr>float_bits_to_uint64 = (\<lambda>i. Inr 0), uint64_to_double_bits = (\<lambda>v. 0)\<rparr>"]
    demo_facts(2,8,10)
  show ?thesis by simp
qed

text \<open>
  At an out-of-range position \<^verbatim>\<open>try_set_voxel\<close> returns the block unchanged and logs
  nothing.
\<close>

theorem try_set_voxel_out_of_range:
  assumes "channel_index < MAX_CHANNELS" and "\<not> validate_pos b x y z"
  shows "try_set_voxel pool x y z value channel_index b = Inr b"
  using assms by (simp add: try_set_voxel_def)

theorem try_set_voxel_out_of_range_witness:
  "CHANNEL_TYPE < MAX_CHANNELS \<and> validate_pos block_d8_demo 0 0 2 = False
   \<and> try_set_voxel (\<lambda>n k. 0) 0 0 2 7 CHANNEL_TYPE block_d8_demo = Inr block_d8_demo"
proof -
  have b: "\<not> validate_pos block_d8_demo 0 0 2" by code_simp
  show ?thesis using try_set_voxel_out_of_range [OF demo_facts(1) b] demo_facts(1) b by simp
qed

subsection \<open>Delegation to a generator task\<close>

text \<open>
  The spec's scenario 6: when the stream answers \<^verbatim>\<open>BLOCK_NOT_FOUND\<close>,
  \<^verbatim>\<open>generate_cache_data\<close> is true and a generator exists, \<^verbatim>\<open>run\<close> pushes one generator
  task that owns the block and the task's parameters, marks the task as delegated, and a
  later \<^verbatim>\<open>apply_result\<close> invokes no callback.
\<close>

theorem miss_with_generator_delegates:
  assumes "stream_dependency t = Some dep" and "stream dep = Some st" and "voxels t = None"
    and "load_voxel_block st (mk (block_size t)) (origin_in_voxels t) (lod_index t)
           = (vox, RESULT_BLOCK_NOT_FOUND)"
    and "generate_cache_data t" and "generator dep = Some g"
  shows "requested_generator_task (fst (run mk t e))
     \<and> async_tasks (snd (run mk t e)) =
         async_tasks e @
           [(g, \<lparr>p_voxels = Some vox, p_volume_id = volume_id t,
                 p_block_position = position t, p_lod_index = lod_index t,
                 p_block_size = block_size t, p_stream_dependency = stream_dependency t,
                 p_priority_dependency = priority_dependency t,
                 p_use_gpu = generator_use_gpu t, p_data = voxel_data t\<rparr>)]
     \<and> callback_calls (snd (apply_result (fst (run mk t e)) e2)) = callback_calls e2"
proof -
  have r: "requested_generator_task (fst (run mk t e))"
    using assms
    by (simp add: run_def dispatch_voxel_result_def load_instances_requested Let_def)
  have a: "async_tasks (snd (run mk t e)) =
         async_tasks e @
           [(g, \<lparr>p_voxels = Some vox, p_volume_id = volume_id t,
                 p_block_position = position t, p_lod_index = lod_index t,
                 p_block_size = block_size t, p_stream_dependency = stream_dependency t,
                 p_priority_dependency = priority_dependency t,
                 p_use_gpu = generator_use_gpu t, p_data = voxel_data t\<rparr>)]"
    using assms
    by (simp add: run_def dispatch_voxel_result_def load_instances_async_tasks Let_def
        push_async_task_def)
  have c: "callback_calls (snd (apply_result (fst (run mk t e)) e2)) = callback_calls e2"
    using r by (auto simp: apply_result_def crash_def split: option.splits)
  from r a c show ?thesis by simp
qed

theorem miss_with_generator_delegates_witness:
  "requested_generator_task (fst (run unat
      (demo_task (demo_stream RESULT_BLOCK_NOT_FOUND RESULT_BLOCK_NOT_FOUND) (Some 5) True)
      demo_engine))
   \<and> map fst (async_tasks (snd (run unat
      (demo_task (demo_stream RESULT_BLOCK_NOT_FOUND RESULT_BLOCK_NOT_FOUND) (Some 5) True)
      demo_engine))) = [5]
   \<and> callback_calls (snd (apply_result (fst (run unat
      (demo_task (demo_stream RESULT_BLOCK_NOT_FOUND RESULT_BLOCK_NOT_FOUND) (Some 5) True)
      demo_engine)) demo_engine)) = []"
proof -
  let ?st = "demo_stream RESULT_BLOCK_NOT_FOUND RESULT_BLOCK_NOT_FOUND"
  let ?dep = "\<lparr>stream = Some ?st, generator = Some 5, valid = True\<rparr>"
  show ?thesis
    using miss_with_generator_delegates
      [of "demo_task ?st (Some 5) True" ?dep ?st unat 16 5 demo_engine demo_engine]
    by (simp add: demo_task_def demo_stream_def demo_engine_def)
qed

end
